theory Spec2Isabelle
  imports Complex_Main "HOL-Library.Word"
begin

section \<open>The drawing layer of notebook-viewer\<close>

text \<open>
  The repository holds two variants of the annotation layer.
  \<^item> The single-canvas variant: \<^verbatim>\<open>config.js\<close>, \<^verbatim>\<open>drawing.js\<close>, \<^verbatim>\<open>touch-handler.js\<close>
    and \<^verbatim>\<open>debug-panel.js\<close>. It keeps a vector stroke log and repaints from it.
  \<^item> The dual-pane variant (GlobalDrawingCanvas, with the DrawingAPI client): two raster
    canvases, compressed records in a remote and a local tier, a debounced autosave.

  JavaScript numbers are modelled as \<^typ>\<open>real\<close>: coordinates, radii and widths are
  computed exactly. Where a statement depends on the rounding of doubles (the scroll
  replay), the operations concerned are given on binary64 doubles as well. JavaScript
  strings are \<^typ>\<open>string\<close>, \<^verbatim>\<open>undefined\<close> and \<^verbatim>\<open>null\<close> are \<^term>\<open>None\<close>.
\<close>

subsection \<open>The 2D context\<close>

text \<open>
  A CanvasRenderingContext2D as far as the code uses it: the paint settings, the current
  path, and the pixel buffer. The buffer is kept as the list of paint operations applied
  since it was last cleared; it changes only by \<^verbatim>\<open>stroke\<close>, \<^verbatim>\<open>drawImage\<close> and
  \<^verbatim>\<open>clearRect\<close>.
\<close>

datatype path_cmd = MoveTo real real | LineTo real real | ClosePath

datatype ink =
  StrokeInk "path_cmd list" string real string
    \<comment> \<open>path, strokeStyle, lineWidth, globalCompositeOperation at the time of \<^verbatim>\<open>stroke()\<close>\<close>
| ImageInk string "(real \<times> real) option"
    \<comment> \<open>\<^verbatim>\<open>drawImage(img, 0, 0)\<close> or \<^verbatim>\<open>drawImage(img, 0, 0, w, h)\<close> of the image with that source\<close>

record ctx2d =
  strokeStyle :: string
  lineWidth :: real
  lineCap :: string
  lineJoin :: string
  globalCompositeOperation :: string
  shadowColor :: string
  shadowBlur :: real
  ctx_path :: "path_cmd list"
  surface :: "ink list"

definition beginPath :: "ctx2d \<Rightarrow> ctx2d" where
  "beginPath c = c\<lparr>ctx_path := []\<rparr>"

definition moveTo :: "real \<Rightarrow> real \<Rightarrow> ctx2d \<Rightarrow> ctx2d" where
  "moveTo a b c = c\<lparr>ctx_path := ctx_path c @ [MoveTo a b]\<rparr>"

definition lineTo :: "real \<Rightarrow> real \<Rightarrow> ctx2d \<Rightarrow> ctx2d" where
  "lineTo a b c = c\<lparr>ctx_path := ctx_path c @ [LineTo a b]\<rparr>"

definition stroke :: "ctx2d \<Rightarrow> ctx2d" where
  "stroke c = c\<lparr>surface := surface c @
     [StrokeInk (ctx_path c) (strokeStyle c) (lineWidth c) (globalCompositeOperation c)]\<rparr>"

definition clearRect_all :: "ctx2d \<Rightarrow> ctx2d" where
  \<comment> \<open>\<^verbatim>\<open>clearRect(0, 0, canvas.width, canvas.height)\<close>\<close>
  "clearRect_all c = c\<lparr>surface := []\<rparr>"

subsection \<open>Input samples\<close>

text \<open>A Touch object as far as the classifiers and handlers read it.\<close>

record touch =
  touchType :: "string option"
  radiusX :: "real option"
  radiusY :: "real option"
  force :: "real option"
  clientX :: real
  clientY :: real

subsection \<open>config.js: the shared state of the single-canvas variant\<close>

record point =
  pt_x :: real
  pt_y :: real

record stroke_rec =
  tool :: string
  color :: string
  width :: real
  points :: "point list"

text \<open>
  \<^verbatim>\<open>state\<close> of config.js. The model covers the states after \<^verbatim>\<open>initCanvas\<close> has found
  the canvas element, so \<^verbatim>\<open>state.canvas\<close> and \<^verbatim>\<open>state.ctx\<close> are objects and the guards
  \<^verbatim>\<open>if (state.ctx)\<close> are true. \<^verbatim>\<open>localStorage\<close> maps a key to the stroke log that
  \<^verbatim>\<open>JSON.stringify\<close> wrote there.
\<close>

record state =
  currentFileName :: string
  drawingActive :: bool
  currentTool :: string
  currentColor :: string
  currentLineWidth :: real
  isDrawing :: bool
  lastX :: real
  lastY :: real
  drawingData :: "stroke_rec list"
  ctx :: ctx2d
  currentStroke :: "stroke_rec option"

record pending =
  active :: bool
  startX :: real
  startY :: real
  contentX :: real
  contentY :: real
  confirmed :: bool
  confirmCount :: nat
  scrollTop :: real

record longPress =
  lp_armed :: bool  \<comment> \<open>\<^verbatim>\<open>timer\<close> holds a running timeout\<close>
  lp_startX :: real
  lp_startY :: real
  lp_isActive :: bool
  lp_hasMoved :: bool

record world =
  st :: state
  pendingStroke :: pending
  longPressState :: longPress
  localStorage :: "string \<rightharpoonup> stroke_rec list"

text \<open>What the handlers read from the document when an event arrives.\<close>

record dom =
  wrapperScrollTop :: "real option"
    \<comment> \<open>\<^verbatim>\<open>contentWrapper?.scrollTop\<close>; \<^term>\<open>None\<close> when there is no content wrapper\<close>
  canvasLeft :: real
  canvasTop :: real
  wrapperLeft :: real
  wrapperRight :: real
  wrapperTop :: real
  wrapperBottom :: real

definition scrollTopOr0 :: "dom \<Rightarrow> real" where
  \<comment> \<open>\<^verbatim>\<open>contentWrapper?.scrollTop || 0\<close>\<close>
  "scrollTopOr0 d = (case wrapperScrollTop d of None \<Rightarrow> 0 | Some s \<Rightarrow> s)"

definition initial_ctx :: ctx2d where
  "initial_ctx = \<lparr>strokeStyle = ''#000000'', lineWidth = 1, lineCap = ''butt'',
     lineJoin = ''miter'', globalCompositeOperation = ''source-over'',
     shadowColor = ''rgba(0, 0, 0, 0)'', shadowBlur = 0, ctx_path = [], surface = []\<rparr>"

definition initial_state :: state where
  "initial_state = \<lparr>currentFileName = '''', drawingActive = False, currentTool = ''pen'',
     currentColor = ''#ef4444'', currentLineWidth = 4, isDrawing = False, lastX = 0,
     lastY = 0, drawingData = [], ctx = initial_ctx, currentStroke = None\<rparr>"

definition initial_world :: world where
  "initial_world = \<lparr>st = initial_state,
     pendingStroke = \<lparr>active = False, startX = 0, startY = 0, contentX = 0, contentY = 0,
       confirmed = False, confirmCount = 0, scrollTop = 0\<rparr>,
     longPressState = \<lparr>lp_armed = False, lp_startX = 0, lp_startY = 0,
       lp_isActive = False, lp_hasMoved = False\<rparr>,
     localStorage = Map.empty\<rparr>"

subsection \<open>drawing.js\<close>

definition saveDrawingToStorage :: "world \<Rightarrow> world" where
  "saveDrawingToStorage w =
     (if currentFileName (st w) = [] then w
      else w\<lparr>localStorage :=
             (localStorage w)(''drawing_'' @ currentFileName (st w) \<mapsto> drawingData (st w))\<rparr>)"

definition startDrawing :: "dom \<Rightarrow> real \<Rightarrow> real \<Rightarrow> world \<Rightarrow> world" where
  \<comment> \<open>\<^verbatim>\<open>startDrawing(e)\<close> with \<^verbatim>\<open>e.clientX\<close>, \<^verbatim>\<open>e.clientY\<close>\<close>
  "startDrawing d ex ey w =
     (if \<not> drawingActive (st w) then w
      else
        let scroll = scrollTopOr0 d;
            screenX = ex - canvasLeft d;
            screenY = ey - canvasTop d;
            s = (st w)\<lparr>isDrawing := True, lastX := screenX, lastY := screenY + scroll\<rparr>
        in w\<lparr>st := s\<lparr>currentStroke := Some
               \<lparr>tool = currentTool s, color = currentColor s, width = currentLineWidth s,
                points = [\<lparr>pt_x = lastX s, pt_y = lastY s\<rparr>]\<rparr>\<rparr>\<rparr>)"

text \<open>
  \<^verbatim>\<open>draw(e)\<close>. The source pushes onto \<^verbatim>\<open>state.currentStroke.points\<close> without a guard;
  it is reached with \<^verbatim>\<open>isDrawing\<close> set, which every path sets together with a current
  stroke. With no current stroke the push throws before anything is painted: the model
  returns the world unchanged there.
\<close>

definition draw :: "dom \<Rightarrow> real \<Rightarrow> real \<Rightarrow> world \<Rightarrow> world" where
  "draw d ex ey w =
     (if \<not> isDrawing (st w) \<or> \<not> drawingActive (st w) then w
      else case currentStroke (st w) of
        None \<Rightarrow> w
      | Some cs \<Rightarrow>
        let scroll = scrollTopOr0 d;
            screenX = ex - canvasLeft d;
            screenY = ey - canvasTop d;
            cX = screenX;
            cY = screenY + scroll;
            s = st w;
            eraser = (currentTool s = ''eraser'');
            c1 = (ctx s)\<lparr>
                   strokeStyle := (if eraser then ''#fff'' else currentColor s),
                   lineWidth := (if eraser then currentLineWidth s * 3 else currentLineWidth s),
                   lineCap := ''round'',
                   lineJoin := ''round'',
                   globalCompositeOperation :=
                     (if eraser then ''destination-out'' else ''source-over'')\<rparr>;
            lastScreenY = lastY s - scroll;
            c2 = stroke (lineTo screenX screenY (moveTo (lastX s) lastScreenY (beginPath c1)))
        in w\<lparr>st := s\<lparr>currentStroke := Some (cs\<lparr>points := points cs @ [\<lparr>pt_x = cX, pt_y = cY\<rparr>]\<rparr>),
                        ctx := c2, lastX := cX, lastY := cY\<rparr>\<rparr>)"

definition stopDrawing :: "world \<Rightarrow> world" where
  "stopDrawing w =
     (if \<not> isDrawing (st w) then w
      else
        let w1 = w\<lparr>st := (st w)\<lparr>isDrawing := False\<rparr>\<rparr>;
            w2 = (case currentStroke (st w1) of
                    Some cs \<Rightarrow>
                      if length (points cs) > 1
                      then saveDrawingToStorage
                             (w1\<lparr>st := (st w1)\<lparr>drawingData := drawingData (st w1) @ [cs]\<rparr>\<rparr>)
                      else w1
                  | None \<Rightarrow> w1)
        in w2\<lparr>st := (st w2)\<lparr>currentStroke := None,
                 ctx := (ctx (st w2))\<lparr>globalCompositeOperation := ''source-over''\<rparr>\<rparr>\<rparr>)"

text \<open>
  \<^verbatim>\<open>redrawCanvas\<close>: the inner \<^verbatim>\<open>forEach\<close> over the points of one stroke, then the outer
  one over the log.
\<close>

fun replay_points :: "real \<Rightarrow> point list \<Rightarrow> nat \<Rightarrow> ctx2d \<Rightarrow> ctx2d" where
  "replay_points scroll [] i c = c"
| "replay_points scroll (p # ps) i c =
     (let screenY = pt_y p - scroll
      in replay_points scroll ps (Suc i)
           (if i = 0 then moveTo (pt_x p) screenY c else lineTo (pt_x p) screenY c))"

definition replay_stroke :: "real \<Rightarrow> stroke_rec \<Rightarrow> ctx2d \<Rightarrow> ctx2d" where
  "replay_stroke scroll s c =
     (let c1 = c\<lparr>strokeStyle := color s, lineWidth := width s, lineCap := ''round'',
                 lineJoin := ''round'',
                 globalCompositeOperation :=
                   (if tool s = ''eraser'' then ''destination-out'' else ''source-over'')\<rparr>;
          c2 = (if tool s = ''eraser'' then c1\<lparr>lineWidth := width s * 3\<rparr> else c1)
      in stroke (replay_points scroll (points s) 0 (beginPath c2)))"

definition redrawCanvas :: "dom \<Rightarrow> world \<Rightarrow> world" where
  "redrawCanvas d w =
     (let c0 = clearRect_all (ctx (st w));
          scroll = scrollTopOr0 d;
          c1 = foldl (\<lambda>c s. replay_stroke scroll s c) c0 (drawingData (st w))
      in w\<lparr>st := (st w)\<lparr>ctx := c1\<lparr>globalCompositeOperation := ''source-over''\<rparr>\<rparr>\<rparr>)"

definition clearDrawing :: "world \<Rightarrow> world" where
  "clearDrawing w =
     saveDrawingToStorage (w\<lparr>st := (st w)\<lparr>ctx := clearRect_all (ctx (st w)), drawingData := []\<rparr>\<rparr>)"

definition loadDrawingData :: "dom \<Rightarrow> world \<Rightarrow> world" where
  "loadDrawingData d w =
     (if currentFileName (st w) = [] then w
      else case localStorage w (''drawing_'' @ currentFileName (st w)) of
        Some saved \<Rightarrow> redrawCanvas d (w\<lparr>st := (st w)\<lparr>drawingData := saved\<rparr>\<rparr>)
      | None \<Rightarrow> w\<lparr>st := (st w)\<lparr>drawingData := [], ctx := clearRect_all (ctx (st w))\<rparr>\<rparr>)"

definition setTool :: "string \<Rightarrow> world \<Rightarrow> world" where
  "setTool t w = w\<lparr>st := (st w)\<lparr>currentTool := t\<rparr>\<rparr>"

definition setLineWidth :: "real \<Rightarrow> world \<Rightarrow> world" where
  "setLineWidth n w = w\<lparr>st := (st w)\<lparr>currentLineWidth := n\<rparr>\<rparr>"

subsection \<open>touch-handler.js: the strict classifier and the touch handlers\<close>

text \<open>
  \<^verbatim>\<open>isStylus\<close> of touch-handler.js (its comment calls it the strict mode). The value it
  returns, and separately what it writes to the debug panel through
  \<^verbatim>\<open>updateDebugPanel\<close> and \<^verbatim>\<open>updateDebugResult\<close>. The panel is \<^term>\<open>None\<close> when its
  elements are not in the document; of its text fields the model keeps the touch type,
  the classifier's result and the log lines (without clock time and reason).
\<close>

definition isStylus :: "touch \<Rightarrow> bool" where
  "isStylus t =
     (if touchType t = Some ''stylus'' then True
      else if touchType t = Some ''direct'' then False
      else False)"

record debug_panel =
  debug_touch_type :: string
  debug_is_stylus :: "bool option"
  debug_log :: "string list"

definition addDebugLog :: "string \<Rightarrow> debug_panel \<Rightarrow> debug_panel" where
  "addDebugLog msg p = p\<lparr>debug_log := take 20 (msg # debug_log p)\<rparr>"

definition isStylus_debug :: "touch \<Rightarrow> debug_panel option \<Rightarrow> debug_panel option" where
  "isStylus_debug t dp =
     (case dp of
        None \<Rightarrow> None
      | Some p \<Rightarrow>
          let p1 = p\<lparr>debug_touch_type :=
                      (case touchType t of None \<Rightarrow> ''undefined'' | Some ty \<Rightarrow> ty)\<rparr>;
              r = isStylus t
          in Some (addDebugLog (''isStylus='' @ (if r then ''true'' else ''false''))
                     (p1\<lparr>debug_is_stylus := Some r\<rparr>)))"

definition startLongPressDetection :: "real \<Rightarrow> real \<Rightarrow> world \<Rightarrow> world" where
  "startLongPressDetection a b w =
     w\<lparr>longPressState := \<lparr>lp_armed = True, lp_startX = a, lp_startY = b,
                           lp_isActive = True, lp_hasMoved = False\<rparr>\<rparr>"

definition checkLongPressMovement :: "real \<Rightarrow> real \<Rightarrow> world \<Rightarrow> world" where
  "checkLongPressMovement a b w =
     (let lp = longPressState w
      in if lp_isActive lp \<and> \<not> lp_hasMoved lp
         then (if sqrt ((a - lp_startX lp)\<^sup>2 + (b - lp_startY lp)\<^sup>2) > 10
               then w\<lparr>longPressState := lp\<lparr>lp_hasMoved := True\<rparr>\<rparr> else w)
         else w)"

definition cancelLongPressDetection :: "world \<Rightarrow> world" where
  "cancelLongPressDetection w =
     w\<lparr>longPressState := (longPressState w)\<lparr>lp_isActive := False, lp_armed := False\<rparr>\<rparr>"

definition resetPending :: "world \<Rightarrow> world" where
  \<comment> \<open>the three assignments \<^verbatim>\<open>active = false; confirmed = false; confirmCount = 0\<close>\<close>
  "resetPending w =
     w\<lparr>pendingStroke := (pendingStroke w)\<lparr>active := False, confirmed := False, confirmCount := 0\<rparr>\<rparr>"

definition touchstart :: "dom \<Rightarrow> touch list \<Rightarrow> world \<Rightarrow> world" where
  "touchstart d touches w =
     (if \<not> drawingActive (st w) then w
      else case touches of
        [t] \<Rightarrow>
          if isStylus t then
            let w1 = startLongPressDetection (clientX t) (clientY t) w
            in if clientX t < wrapperLeft d \<or> clientX t > wrapperRight d \<or>
                  clientY t < wrapperTop d \<or> clientY t > wrapperBottom d
               then w1
               else
                 let scroll = scrollTopOr0 d;
                     screenX = clientX t - canvasLeft d;
                     screenY = clientY t - canvasTop d
                 in w1\<lparr>pendingStroke :=
                        \<lparr>active = True, startX = screenX, startY = screenY,
                         contentX = screenX, contentY = screenY + scroll,
                         confirmed = False, confirmCount = 1, scrollTop = scroll\<rparr>\<rparr>
          else
            let w1 = resetPending w
            in w1\<lparr>st := (st w1)\<lparr>ctx := beginPath (ctx (st w1))\<rparr>\<rparr>
      | _ \<Rightarrow> w)"

text \<open>
  \<^verbatim>\<open>touchmove\<close>, in the order of the source: the touch count, the idle return, the
  delayed confirmation (\<open>touchmove_confirm\<close>, lines 233 to 258 of the handler), then
  the painting part (\<open>touchmove_paint\<close>, from \<^verbatim>\<open>if (!state.isDrawing) return\<close> on).
\<close>

definition touchmove_confirm :: "world \<Rightarrow> world" where
  "touchmove_confirm w =
     (let p = (pendingStroke w)\<lparr>confirmCount := confirmCount (pendingStroke w) + 1\<rparr>
      in if confirmCount p \<ge> 3 then
           let p2 = p\<lparr>confirmed := True\<rparr>;
               s = (st w)\<lparr>isDrawing := True, lastX := contentX p2, lastY := contentY p2\<rparr>;
               s2 = s\<lparr>currentStroke := Some
                      \<lparr>tool = currentTool s, color = currentColor s, width = currentLineWidth s,
                       points = [\<lparr>pt_x = lastX s, pt_y = lastY s\<rparr>]\<rparr>\<rparr>;
               eraser = (currentTool s2 = ''eraser'');
               c1 = (ctx s2)\<lparr>
                      strokeStyle := (if eraser then ''#fff'' else currentColor s2),
                      lineWidth := (if eraser then currentLineWidth s2 * 3 else currentLineWidth s2),
                      lineCap := ''round'',
                      lineJoin := ''round'',
                      globalCompositeOperation :=
                        (if eraser then ''destination-out'' else ''source-over'')\<rparr>;
               c2 = moveTo (startX p2) (startY p2) (beginPath c1)
           in w\<lparr>pendingStroke := p2, st := s2\<lparr>ctx := c2\<rparr>\<rparr>
         else w\<lparr>pendingStroke := p\<rparr>)"

definition touchmove_paint :: "dom \<Rightarrow> touch \<Rightarrow> bool \<Rightarrow> world \<Rightarrow> world" where
  "touchmove_paint d t isApplePencil w =
     (if \<not> isDrawing (st w) then w
      else if \<not> isApplePencil then
        (let w1 = stopDrawing w in w1\<lparr>st := (st w1)\<lparr>ctx := beginPath (ctx (st w1))\<rparr>\<rparr>)
      else
        let w1 = checkLongPressMovement (clientX t) (clientY t) w;
            scroll = scrollTopOr0 d;
            screenX = clientX t - canvasLeft d;
            screenY = clientY t - canvasTop d;
            cX = screenX;
            cY = screenY + scroll;
            s = (st w1)\<lparr>ctx := stroke (lineTo screenX screenY (ctx (st w1)))\<rparr>;
            s2 = (case currentStroke s of
                    Some cs \<Rightarrow>
                      s\<lparr>currentStroke := Some (cs\<lparr>points := points cs @ [\<lparr>pt_x = cX, pt_y = cY\<rparr>]\<rparr>)\<rparr>
                  | None \<Rightarrow> s)
        in w1\<lparr>st := s2\<lparr>lastX := cX, lastY := cY\<rparr>\<rparr>)"

definition touchmove :: "dom \<Rightarrow> touch list \<Rightarrow> world \<Rightarrow> world" where
  "touchmove d touches w =
     (if \<not> drawingActive (st w) then w
      else case touches of
        [t] \<Rightarrow>
          if \<not> active (pendingStroke w) \<and> \<not> isDrawing (st w) then w
          else
            let isApplePencil = isStylus t
            in if active (pendingStroke w) \<and> \<not> confirmed (pendingStroke w)
               then (if \<not> isApplePencil then resetPending w
                     else touchmove_paint d t isApplePencil (touchmove_confirm w))
               else touchmove_paint d t isApplePencil w
      | _ \<Rightarrow> stopDrawing (resetPending w))"

definition touchend :: "world \<Rightarrow> world" where
  \<comment> \<open>the changed touch is only classified to decide on \<^verbatim>\<open>preventDefault\<close>\<close>
  "touchend w =
     (let w1 = (if active (pendingStroke w) then resetPending w else w)
      in if isDrawing (st w1) then stopDrawing (cancelLongPressDetection w1) else w1)"

text \<open>
  The events of a gesture, and a run of them from a world. A \<open>MouseDown\<close> is one whose
  target lies in the content wrapper or is the canvas; the handler ignores any other.
\<close>

datatype touch_event =
  TouchStart dom "touch list" | TouchMove dom "touch list" | TouchEnd
| MouseDown dom real real | MouseMove dom real real | MouseUp

fun handle :: "touch_event \<Rightarrow> world \<Rightarrow> world" where
  "handle (TouchStart d ts) w = touchstart d ts w"
| "handle (TouchMove d ts) w = touchmove d ts w"
| "handle TouchEnd w = touchend w"
| "handle (MouseDown d a b) w = (if \<not> drawingActive (st w) then w else startDrawing d a b w)"
| "handle (MouseMove d a b) w = draw d a b w"
| "handle MouseUp w = stopDrawing w"

definition run :: "touch_event list \<Rightarrow> world \<Rightarrow> world" where
  "run evs w = foldl (\<lambda>v e. handle e v) w evs"

definition stylus_move :: "touch_event \<Rightarrow> bool" where
  \<comment> \<open>a move event with exactly one touch, which passes the strict classifier\<close>
  "stylus_move e = (case e of TouchMove d [t] \<Rightarrow> isStylus t | _ \<Rightarrow> False)"

definition is_move :: "touch_event \<Rightarrow> bool" where
  "is_move e = (case e of TouchMove d ts \<Rightarrow> True | _ \<Rightarrow> False)"

definition in_wrapper :: "dom \<Rightarrow> touch \<Rightarrow> bool" where
  "in_wrapper d t = (\<not> (clientX t < wrapperLeft d \<or> clientX t > wrapperRight d \<or>
                        clientY t < wrapperTop d \<or> clientY t > wrapperBottom d))"

subsection \<open>GlobalDrawingCanvas: classifier, brush settings and the autosave timer\<close>

text \<open>
  \<^verbatim>\<open>isStylus\<close> of the dual-pane module. The test on \<^verbatim>\<open>touch.force\<close> has an empty body
  in the source and is left out.
\<close>

definition isStylus_gc :: "touch \<Rightarrow> bool" where
  "isStylus_gc t =
     (case touchType t of
        Some ty \<Rightarrow> ty = ''stylus''
      | None \<Rightarrow>
          (case radiusX t of
             Some rx \<Rightarrow>
               (case radiusY t of
                  Some ry \<Rightarrow>
                    let avgRadius = (rx + ry) / 2
                    in if avgRadius < 8 then True
                       else if avgRadius > 15 then False
                       else True
                | None \<Rightarrow> True)
           | None \<Rightarrow> True))"

definition LINE_WIDTHS :: "real list" where
  "LINE_WIDTHS = [2, 4, 6, 8, 12]"

text \<open>
  \<^verbatim>\<open>drawingState\<close>: the fields the modelled functions use. A pane's canvas is
  \<^term>\<open>None\<close> until \<^verbatim>\<open>initGlobalCanvas\<close> has created it. \<^verbatim>\<open>autoSaveTimer\<close> holds the id
  that \<^verbatim>\<open>setTimeout\<close> returned.
\<close>

record drawingState =
  isActive :: bool
  gc_isDrawing :: bool
  leftCtx :: "ctx2d option"
  rightCtx :: "ctx2d option"
  gc_lessonId :: "string option"
  currentPane :: "string option"
  leftView :: "string option"
  rightView :: "string option"
  gc_tool :: string
  gc_color :: string
  gc_lineWidth :: real
  autoSaveTimer :: "nat option"





text \<open>
  The timers of the page, as far as the autosave uses them: a clock in milliseconds, the
  timeouts that are armed (id and due time) and the times at which the callback
  \<^verbatim>\<open>saveDrawingData\<close> has run. \<^verbatim>\<open>clearTimeout\<close> of an id that is not armed does nothing.
\<close>

record timers =
  now :: nat
  next_id :: nat
  armed :: "(nat \<times> nat) list"
  save_calls :: "nat list"

definition clearTimeout :: "nat option \<Rightarrow> timers \<Rightarrow> timers" where
  "clearTimeout h t =
     (case h of None \<Rightarrow> t | Some i \<Rightarrow> t\<lparr>armed := filter (\<lambda>e. fst e \<noteq> i) (armed t)\<rparr>)"

definition setTimeout :: "nat \<Rightarrow> timers \<Rightarrow> nat \<times> timers" where
  "setTimeout delay t =
     (next_id t, t\<lparr>armed := armed t @ [(next_id t, now t + delay)], next_id := next_id t + 1\<rparr>)"

definition advance :: "nat \<Rightarrow> timers \<Rightarrow> timers" where
  \<comment> \<open>the clock reaches \<open>T\<close>: every timeout due by then has run its callback\<close>
  "advance T t =
     t\<lparr>now := max (now t) T,
       save_calls := save_calls t @ map snd (filter (\<lambda>e. snd e \<le> T) (armed t)),
       armed := filter (\<lambda>e. \<not> snd e \<le> T) (armed t)\<rparr>"

record gc_world =
  ds :: drawingState
  tm :: timers
  loads_started :: nat  \<comment> \<open>calls of the asynchronous \<^verbatim>\<open>loadDrawingData\<close>\<close>

definition closePath_pane :: "drawingState \<Rightarrow> drawingState" where
  \<comment> \<open>\<^verbatim>\<open>ctx?.closePath()\<close> on the pane being drawn\<close>
  "closePath_pane s =
     (case currentPane s of
        None \<Rightarrow> s
      | Some p \<Rightarrow>
          if p = ''left''
          then s\<lparr>leftCtx := map_option (\<lambda>c. c\<lparr>ctx_path := ctx_path c @ [ClosePath]\<rparr>) (leftCtx s)\<rparr>
          else s\<lparr>rightCtx := map_option (\<lambda>c. c\<lparr>ctx_path := ctx_path c @ [ClosePath]\<rparr>) (rightCtx s)\<rparr>)"

definition stopDrawing_gc :: "gc_world \<Rightarrow> gc_world" where
  "stopDrawing_gc g =
     (let s1 = closePath_pane ((ds g)\<lparr>gc_isDrawing := False\<rparr>);
          t1 = clearTimeout (autoSaveTimer s1) (tm g);
          (h, t2) = setTimeout 1000 t1
      in g\<lparr>ds := s1\<lparr>autoSaveTimer := Some h\<rparr>, tm := t2\<rparr>)"

definition updateViewTypes :: "string \<Rightarrow> string \<Rightarrow> gc_world \<Rightarrow> gc_world" where
  "updateViewTypes lv rv g =
     (let t1 = clearTimeout (autoSaveTimer (ds g)) (tm g)
      in g\<lparr>tm := t1, ds := (ds g)\<lparr>leftView := Some lv, rightView := Some rv\<rparr>,
           loads_started := loads_started g + 1\<rparr>)"

definition clearDrawing_gc :: "gc_world \<Rightarrow> gc_world" where
  "clearDrawing_gc g =
     (let t1 = clearTimeout (autoSaveTimer (ds g)) (tm g)
      in g\<lparr>tm := t1,
           ds := (ds g)\<lparr>leftCtx := map_option clearRect_all (leftCtx (ds g)),
                        rightCtx := map_option clearRect_all (rightCtx (ds g))\<rparr>\<rparr>)"

definition tick :: "nat \<Rightarrow> gc_world \<Rightarrow> gc_world" where
  "tick T g = g\<lparr>tm := advance T (tm g)\<rparr>"

text \<open>
  Strokes that end at the given times: the clock reaches each time, then the stroke
  ends there (\<^verbatim>\<open>stopDrawing\<close>).
\<close>

fun strokes_end :: "nat list \<Rightarrow> gc_world \<Rightarrow> gc_world" where
  "strokes_end [] g = g"
| "strokes_end (T # Ts) g = strokes_end Ts (stopDrawing_gc (tick T g))"

fun gaps_below :: "nat \<Rightarrow> nat list \<Rightarrow> bool" where
  \<comment> \<open>the times do not decrease and each is less than \<open>D\<close> before the next\<close>
  "gaps_below D [] = True"
| "gaps_below D [a] = True"
| "gaps_below D (a # b # cs) = (a \<le> b \<and> b < a + D \<and> gaps_below D (b # cs))"

definition initial_gc :: gc_world where
  "initial_gc =
     \<lparr>ds = \<lparr>isActive = False, gc_isDrawing = False, leftCtx = None, rightCtx = None,
            gc_lessonId = None, currentPane = None, leftView = None, rightView = None,
            gc_tool = ''pen'', gc_color = ''#ef4444'', gc_lineWidth = 4,
            autoSaveTimer = None\<rparr>,
      tm = \<lparr>now = 0, next_id = 1, armed = [], save_calls = []\<rparr>,
      loads_started = 0\<rparr>"

definition timer_owned :: "gc_world \<Rightarrow> bool" where
  \<comment> \<open>every armed timeout is the one \<^verbatim>\<open>autoSaveTimer\<close> names\<close>
  "timer_owned g =
     (\<forall>e \<in> set (armed (tm g)). autoSaveTimer (ds g) = Some (fst e))"

subsection \<open>DrawingAPI and the two storage tiers\<close>

record compression_info =
  format :: string
  quality :: real
  originalSize :: nat
  compressedSize :: nat
  compressionRatio :: int

record drawing_record =
  version :: string
  lessonId :: string
  viewType :: string
  timestamp :: nat
  canvasWidth :: "real option"
  canvasHeight :: "real option"
  imageData :: string
  compressionInfo :: "compression_info option"

datatype js_error = NetworkError | HttpError nat | QuotaExceededError

text \<open>
  Modelled from the spec: the remote service behind \<^verbatim>\<open>/api/drawings\<close> is not in the
  sources. It keeps at most one record per (lessonId, viewType); \<^verbatim>\<open>POST\<close> stores the
  record and answers with a success flag, \<^verbatim>\<open>GET\<close> answers the record or 404,
  \<^verbatim>\<open>DELETE\<close> removes it. A request to a service that is unreachable or times out
  fails in \<^verbatim>\<open>fetch\<close>; a service that is failing answers every request with an
  error status; a service that is refusing answers a \<^verbatim>\<open>POST\<close> with success false.
\<close>

datatype condition = Healthy | Unreachable | Failing nat | Refusing

record server =
  cond :: condition
  drawings :: "(string \<times> string) \<rightharpoonup> drawing_record"

definition server_post :: "string \<times> string \<Rightarrow> drawing_record \<Rightarrow> server \<Rightarrow> (js_error + bool) \<times> server" where
  "server_post k r sv =
     (case cond sv of
        Healthy \<Rightarrow> (Inr True, sv\<lparr>drawings := (drawings sv)(k \<mapsto> r)\<rparr>)
      | Unreachable \<Rightarrow> (Inl NetworkError, sv)
      | Failing n \<Rightarrow> (Inl (HttpError n), sv)
      | Refusing \<Rightarrow> (Inr False, sv))"

definition server_delete :: "string \<times> string \<Rightarrow> server \<Rightarrow> (js_error + bool) \<times> server" where
  "server_delete k sv =
     (case cond sv of
        Unreachable \<Rightarrow> (Inl NetworkError, sv)
      | Failing n \<Rightarrow> (Inl (HttpError n), sv)
      | _ \<Rightarrow> (case drawings sv k of
                None \<Rightarrow> (Inl (HttpError 404), sv)
              | Some r \<Rightarrow> (Inr True, sv\<lparr>drawings := (drawings sv)(k := None)\<rparr>)))"

definition server_get :: "string \<times> string \<Rightarrow> server \<Rightarrow> js_error + drawing_record" where
  "server_get k sv =
     (case cond sv of
        Unreachable \<Rightarrow> Inl NetworkError
      | Failing n \<Rightarrow> Inl (HttpError n)
      | _ \<Rightarrow> (case drawings sv k of None \<Rightarrow> Inl (HttpError 404) | Some r \<Rightarrow> Inr r))"

text \<open>
  The client methods of \<^verbatim>\<open>DrawingAPI\<close>: \<^verbatim>\<open>saveDrawing\<close> and \<^verbatim>\<open>deleteDrawing\<close> pass
  the failure of \<^verbatim>\<open>request\<close> on; \<^verbatim>\<open>getDrawing\<close> turns a 404 into \<^verbatim>\<open>null\<close>.
\<close>

definition api_saveDrawing :: "string \<Rightarrow> string \<Rightarrow> drawing_record \<Rightarrow> server \<Rightarrow> (js_error + bool) \<times> server" where
  "api_saveDrawing lid vt r sv = server_post (lid, vt) r sv"

definition api_deleteDrawing :: "string \<Rightarrow> string \<Rightarrow> server \<Rightarrow> (js_error + bool) \<times> server" where
  "api_deleteDrawing lid vt sv = server_delete (lid, vt) sv"

definition api_getDrawing :: "string \<Rightarrow> string \<Rightarrow> server \<Rightarrow> js_error + drawing_record option" where
  "api_getDrawing lid vt sv =
     (case server_get (lid, vt) sv of
        Inr r \<Rightarrow> Inr (Some r)
      | Inl e \<Rightarrow> (if e = HttpError 404 then Inr None else Inl e))"

text \<open>
  Both tiers, with the calls made on them in order. The local tier is the
  \<^verbatim>\<open>localStorage\<close> of the dual-pane variant; \<^verbatim>\<open>setItem\<close> throws
  \<^verbatim>\<open>QuotaExceededError\<close> when the quota is exhausted. \<open>alerts\<close> counts the quota
  messages shown to the user.
\<close>

datatype tier_call =
  Post string string drawing_record | Delete string string | Get string string
| SetItem string drawing_record | RemoveItem string | GetItem string

record tiers =
  remote :: server
  local_tier :: "string \<rightharpoonup> drawing_record"
  local_full :: bool
  calls :: "tier_call list"
  alerts :: nat

definition STORAGE_KEY_PREFIX :: string where
  "STORAGE_KEY_PREFIX = ''drawing_data_''"

definition storageKey :: "string \<Rightarrow> string \<Rightarrow> string" where
  "storageKey lid vt = STORAGE_KEY_PREFIX @ lid @ ''_'' @ vt"

definition setItem :: "string \<Rightarrow> drawing_record \<Rightarrow> tiers \<Rightarrow> js_error option \<times> tiers" where
  "setItem k r s =
     (let s1 = s\<lparr>calls := calls s @ [SetItem k r]\<rparr>
      in if local_full s then (Some QuotaExceededError, s1)
         else (None, s1\<lparr>local_tier := (local_tier s1)(k \<mapsto> r)\<rparr>))"

definition removeItem :: "string \<Rightarrow> tiers \<Rightarrow> tiers" where
  "removeItem k s = s\<lparr>calls := calls s @ [RemoveItem k], local_tier := (local_tier s)(k := None)\<rparr>"

text \<open>
  The emptiness test of \<^verbatim>\<open>saveCanvasData\<close>: the loop
  \<^verbatim>\<open>for (let i = 3; i < pixels.length; i += 4)\<close> over the bytes of \<^verbatim>\<open>getImageData\<close>.
\<close>

function hasContent_from :: "nat \<Rightarrow> 8 word list \<Rightarrow> bool" where
  "hasContent_from i pixels =
     (if i < length pixels
      then (if pixels ! i > 0 then True else hasContent_from (i + 4) pixels)
      else False)"
  by pat_completeness auto
termination
  by (relation "measure (\<lambda>(i, pixels). length pixels - i)") auto

declare hasContent_from.simps [simp del]

definition hasContent :: "8 word list \<Rightarrow> bool" where
  "hasContent pixels = hasContent_from 3 pixels"

definition surface_empty :: "8 word list \<Rightarrow> bool" where
  \<comment> \<open>no pixel of the RGBA buffer has a non-zero alpha byte\<close>
  "surface_empty pixels = (\<forall>k. 4 * k + 3 < length pixels \<longrightarrow> pixels ! (4 * k + 3) = 0)"

text \<open>
  \<^verbatim>\<open>saveCanvasData\<close>. The pixel bytes, the canvas size, the result of
  \<^verbatim>\<open>compressCanvasData\<close> (data URL and statistics) and \<^verbatim>\<open>Date.now()\<close> are inputs.
  \<open>save_fallback\<close> is the code after the inner \<^verbatim>\<open>try\<close>, with the outer \<^verbatim>\<open>catch\<close>.
\<close>

definition save_fallback :: "string \<Rightarrow> drawing_record \<Rightarrow> tiers \<Rightarrow> bool \<times> tiers" where
  "save_fallback k r s =
     (case setItem k r s of
        (None, s1) \<Rightarrow> (True, s1)
      | (Some e, s1) \<Rightarrow>
          (False, if e = QuotaExceededError then s1\<lparr>alerts := alerts s1 + 1\<rparr> else s1))"

definition saveCanvasData ::
  "8 word list \<Rightarrow> real \<Rightarrow> real \<Rightarrow> string \<Rightarrow> compression_info \<Rightarrow> nat \<Rightarrow> string \<Rightarrow> string \<Rightarrow> tiers
     \<Rightarrow> bool \<times> tiers" where
  "saveCanvasData pixels cw ch dataURL info date_now lid vt s =
     (let k = storageKey lid vt
      in if \<not> hasContent pixels then
           let (res, sv) = api_deleteDrawing lid vt (remote s);
               s1 = s\<lparr>remote := sv, calls := calls s @ [Delete lid vt]\<rparr>
           in (True, removeItem k s1)
         else
           let drawingRec =
                 \<lparr>version = ''2.0'', lessonId = lid, viewType = vt, timestamp = date_now,
                  canvasWidth = Some cw, canvasHeight = Some ch, imageData = dataURL,
                  compressionInfo = Some info\<rparr>;
               (res, sv) = api_saveDrawing lid vt drawingRec (remote s);
               s1 = s\<lparr>remote := sv, calls := calls s @ [Post lid vt drawingRec]\<rparr>
           in case res of
                Inr True \<Rightarrow>
                  (case setItem k drawingRec s1 of
                     (None, s2) \<Rightarrow> (True, s2)
                   | (Some e, s2) \<Rightarrow> save_fallback k drawingRec s2)
              | _ \<Rightarrow> save_fallback k drawingRec s1)"

text \<open>
  \<^verbatim>\<open>loadCanvasData\<close>. \<open>decodes\<close> tells whether the browser can decode an image source
  (\<^verbatim>\<open>onload\<close>) or not (\<^verbatim>\<open>onerror\<close>).
\<close>

record canvas =
  cv_width :: real
  cv_height :: real
  cv_opacity :: string
  cv_ctx :: ctx2d

definition supportedVersions :: "string list" where
  "supportedVersions = [''1.0'', ''2.0'']"

definition clear_canvas :: "canvas \<Rightarrow> canvas" where
  "clear_canvas cv = cv\<lparr>cv_ctx := clearRect_all (cv_ctx cv)\<rparr>"

definition drawImage :: "string \<Rightarrow> (real \<times> real) option \<Rightarrow> canvas \<Rightarrow> canvas" where
  "drawImage src dims cv =
     cv\<lparr>cv_ctx := (cv_ctx cv)\<lparr>surface := surface (cv_ctx cv) @ [ImageInk src dims]\<rparr>\<rparr>"

definition scaled_draw :: "real \<Rightarrow> real \<Rightarrow> drawing_record \<Rightarrow> canvas \<Rightarrow> canvas" where
  \<comment> \<open>the branch taken when the record has a saved width and height\<close>
  "scaled_draw savedWidth savedHeight r cv =
     (let scaleX = cv_width cv / savedWidth;
          scaleY = cv_height cv / savedHeight
      in if \<bar>scaleX - 1\<bar> > 0.01 \<or> \<bar>scaleY - 1\<bar> > 0.01
         then drawImage (imageData r) (Some (cv_width cv, cv_height cv)) cv
         else drawImage (imageData r) None cv)"

definition paint_loaded :: "drawing_record \<Rightarrow> canvas \<Rightarrow> canvas" where
  \<comment> \<open>the \<^verbatim>\<open>img.onload\<close> callback; a width or height that is missing or 0 is falsy\<close>
  "paint_loaded r cv =
     (let c1 = clear_canvas cv;
          c2 = (case canvasWidth r of
                  None \<Rightarrow> drawImage (imageData r) None c1
                | Some sw \<Rightarrow>
                    (case canvasHeight r of
                       None \<Rightarrow> drawImage (imageData r) None c1
                     | Some sh \<Rightarrow>
                         if sw \<noteq> 0 \<and> sh \<noteq> 0 then scaled_draw sw sh r c1
                         else drawImage (imageData r) None c1))
      in c2\<lparr>cv_opacity := ''1''\<rparr>)"

definition fetch_record :: "string \<Rightarrow> string \<Rightarrow> tiers \<Rightarrow> drawing_record option \<times> tiers" where
  \<comment> \<open>the two reads of \<^verbatim>\<open>loadCanvasData\<close>: the server first, then the local tier\<close>
  "fetch_record lid vt s =
     (let s1 = s\<lparr>calls := calls s @ [Get lid vt]\<rparr>
      in case api_getDrawing lid vt (remote s) of
           Inr (Some serverData) \<Rightarrow>
             (Some serverData, snd (setItem (storageKey lid vt) serverData s1))
         | _ \<Rightarrow>
             (local_tier s1 (storageKey lid vt),
              s1\<lparr>calls := calls s1 @ [GetItem (storageKey lid vt)]\<rparr>))"

definition loadCanvasData ::
  "(string \<Rightarrow> bool) \<Rightarrow> canvas \<Rightarrow> string \<Rightarrow> string \<Rightarrow> tiers \<Rightarrow> bool \<times> canvas \<times> tiers" where
  "loadCanvasData decodes cv lid vt s =
     (let c1 = (clear_canvas cv)\<lparr>cv_opacity := ''0''\<rparr>
      in case fetch_record lid vt s of
           (None, s1) \<Rightarrow> (False, c1\<lparr>cv_opacity := ''''\<rparr>, s1)
         | (Some drawingRec, s1) \<Rightarrow>
             if version drawingRec \<notin> set supportedVersions then (False, c1, s1)
             else if lessonId drawingRec \<noteq> lid then (False, c1, s1)
             else if viewType drawingRec \<noteq> vt then (False, c1, s1)
             else if decodes (imageData drawingRec)
                  then (True, paint_loaded drawingRec c1, s1)
                  else (False, c1, s1))"

subsection \<open>Notions used in the statements\<close>




definition log_ok :: "world \<Rightarrow> bool" where
  \<comment> \<open>every stroke of the log, and of every log written to storage, has two points or more\<close>
  "log_ok w =
     ((\<forall>s \<in> set (drawingData (st w)). 2 \<le> length (points s)) \<and>
      (\<forall>l \<in> ran (localStorage w). \<forall>s \<in> set l. 2 \<le> length (points s)))"

definition idle :: "world \<Rightarrow> bool" where
  "idle w = (\<not> active (pendingStroke w) \<and> \<not> isDrawing (st w))"

definition awaiting :: "nat \<Rightarrow> world \<Rightarrow> bool" where
  \<comment> \<open>pending confirmation with the given count, nothing started\<close>
  "awaiting n w =
     (drawingActive (st w) \<and> active (pendingStroke w) \<and> \<not> confirmed (pendingStroke w) \<and>
      confirmCount (pendingStroke w) = n \<and> \<not> isDrawing (st w))"

fun confirms :: "touch_event list \<Rightarrow> bool" where
  \<comment> \<open>the first two events are moves of one touch that pass the classifier\<close>
  "confirms (e1 # e2 # rest) = (stylus_move e1 \<and> stylus_move e2)"
| "confirms [e] = False"
| "confirms [] = False"

definition inking :: "point \<Rightarrow> path_cmd \<Rightarrow> ink list \<Rightarrow> stroke_rec list \<Rightarrow> world \<Rightarrow> bool" where
  \<comment> \<open>a confirmed stroke in progress: its first point, the start of its path, the surface
      and the log it began on\<close>
  "inking p0 m base logged w =
     (drawingActive (st w) \<and> isDrawing (st w) \<and> active (pendingStroke w) \<and>
      confirmed (pendingStroke w) \<and> drawingData (st w) = logged \<and>
      (\<exists>cs rest. currentStroke (st w) = Some cs \<and> points cs = p0 # rest \<and> rest \<noteq> []) \<and>
      (\<exists>q. ctx_path (ctx (st w)) = m # q) \<and>
      (\<exists>inks. surface (ctx (st w)) = base @ inks \<and> inks \<noteq> [] \<and>
         (\<forall>k \<in> set inks. \<exists>q a b c. k = StrokeInk (m # q) a b c)))"

definition quiet :: "nat \<Rightarrow> gc_world \<Rightarrow> bool" where
  \<comment> \<open>at time \<open>T\<close> no armed timeout is due yet, and each is the one the state names\<close>
  "quiet T g = (timer_owned g \<and> now (tm g) \<le> T \<and> (\<forall>e \<in> set (armed (tm g)). T < snd e))"

definition served :: "string \<Rightarrow> string \<Rightarrow> tiers \<Rightarrow> drawing_record option" where
  \<comment> \<open>the record that \<^verbatim>\<open>loadCanvasData\<close> goes on with: the server's, else the local one\<close>
  "served lid vt s =
     (case api_getDrawing lid vt (remote s) of
        Inr (Some r) \<Rightarrow> Some r
      | _ \<Rightarrow> local_tier s (storageKey lid vt))"

subsection \<open>Concrete inputs\<close>

definition pen_touch :: touch where
  "pen_touch = \<lparr>touchType = Some ''stylus'', radiusX = None, radiusY = None, force = None,
                clientX = 10, clientY = 10\<rparr>"

definition palm_touch :: touch where
  "palm_touch = \<lparr>touchType = Some ''direct'', radiusX = Some 20, radiusY = Some 24,
                 force = None, clientX = 40, clientY = 40\<rparr>"

definition bare_touch :: touch where
  \<comment> \<open>a platform that reports neither a touch type nor radii\<close>
  "bare_touch = \<lparr>touchType = None, radiusX = None, radiusY = None, force = None,
                 clientX = 10, clientY = 10\<rparr>"

definition fine_touch :: touch where
  \<comment> \<open>no touch type, a contact of radius 2\<close>
  "fine_touch = \<lparr>touchType = None, radiusX = Some 2, radiusY = Some 2, force = None,
                 clientX = 10, clientY = 10\<rparr>"

definition wide_touch :: touch where
  \<comment> \<open>no touch type, a contact of radius 20\<close>
  "wide_touch = \<lparr>touchType = None, radiusX = Some 20, radiusY = Some 20, force = None,
                 clientX = 10, clientY = 10\<rparr>"

definition page :: dom where
  "page = \<lparr>wrapperScrollTop = Some 30, canvasLeft = 0, canvasTop = 0, wrapperLeft = 0,
           wrapperRight = 200, wrapperTop = 0, wrapperBottom = 200\<rparr>"

definition ready_world :: world where
  \<comment> \<open>the initial state with the drawing mode switched on\<close>
  "ready_world = initial_world\<lparr>st := initial_state\<lparr>drawingActive := True\<rparr>\<rparr>"

definition sample_info :: compression_info where
  "sample_info = \<lparr>format = ''jpeg'', quality = 0.7, originalSize = 1000,
                  compressedSize = 400, compressionRatio = 60\<rparr>"

definition old_record :: drawing_record where
  "old_record = \<lparr>version = ''1.0'', lessonId = ''L2-01'', viewType = ''notebook'',
                 timestamp = 1, canvasWidth = None, canvasHeight = None,
                 imageData = ''data:image/png;base64,AA'', compressionInfo = None\<rparr>"

definition future_record :: drawing_record where
  "future_record = old_record\<lparr>version := ''3.0''\<rparr>"

definition offline_tiers :: tiers where
  \<comment> \<open>the server cannot be reached; both tiers hold a record for L2-01, notebook\<close>
  "offline_tiers =
     \<lparr>remote = \<lparr>cond = Unreachable,
                 drawings = [(''L2-01'', ''notebook'') \<mapsto> old_record]\<rparr>,
      local_tier = [storageKey ''L2-01'' ''notebook'' \<mapsto> old_record],
      local_full = False, calls = [], alerts = 0\<rparr>"

definition online_tiers :: tiers where
  "online_tiers = offline_tiers\<lparr>remote := (remote offline_tiers)\<lparr>cond := Healthy\<rparr>\<rparr>"

definition blank_canvas :: canvas where
  "blank_canvas = \<lparr>cv_width = 200, cv_height = 200, cv_opacity = '''', cv_ctx = initial_ctx\<rparr>"

subsection \<open>The long-press timer and further notions for the touch path\<close>




definition brushed :: "string \<Rightarrow> real \<Rightarrow> string \<Rightarrow> ink list \<Rightarrow> world \<Rightarrow> bool" where
  \<comment> \<open>a confirmed touch stroke in progress whose context holds the given stroke style,
      line width and compositing, all of its paint so far made with them\<close>
  "brushed sty n op base w =
     (drawingActive (st w) \<and> isDrawing (st w) \<and> active (pendingStroke w) \<and>
      confirmed (pendingStroke w) \<and> strokeStyle (ctx (st w)) = sty \<and>
      lineWidth (ctx (st w)) = n \<and> globalCompositeOperation (ctx (st w)) = op \<and>
      (\<exists>inks. surface (ctx (st w)) = base @ inks \<and> inks \<noteq> [] \<and>
         (\<forall>k \<in> set inks. \<exists>p. k = StrokeInk p sty n op)))"

subsection \<open>The y coordinate in double arithmetic\<close>











section \<open>Properties of the single-canvas variant\<close>

subsection \<open>Projections\<close>

lemma saveDrawingToStorage_st [simp]: "st (saveDrawingToStorage w) = st w"
  by (simp add: saveDrawingToStorage_def)

lemma saveDrawingToStorage_pending [simp]:
  "pendingStroke (saveDrawingToStorage w) = pendingStroke w"
  by (simp add: saveDrawingToStorage_def)

lemma checkLongPressMovement_st [simp]: "st (checkLongPressMovement a b w) = st w"
  by (simp add: checkLongPressMovement_def Let_def)

lemma checkLongPressMovement_pending [simp]:
  "pendingStroke (checkLongPressMovement a b w) = pendingStroke w"
  by (simp add: checkLongPressMovement_def Let_def)

lemma checkLongPressMovement_storage [simp]:
  "localStorage (checkLongPressMovement a b w) = localStorage w"
  by (simp add: checkLongPressMovement_def Let_def)

lemma run_Cons: "run (e # evs) w = run evs (handle e w)"
  by (simp add: run_def)

lemma run_Nil: "run [] w = w"
  by (simp add: run_def)

lemma run_append: "run (xs @ ys) w = run ys (run xs w)"
  by (simp add: run_def)

subsection \<open>Replay of the stroke log\<close>










subsection \<open>Strokes shorter than two points\<close>

lemma saveDrawingToStorage_log_ok: "log_ok w \<Longrightarrow> log_ok (saveDrawingToStorage w)"
  by (auto simp: log_ok_def saveDrawingToStorage_def ran_def split: if_splits)

lemma stopDrawing_log_ok:
  assumes ok: "log_ok w"
  shows "log_ok (stopDrawing w)"
proof (cases "isDrawing (st w)")
  case False
  then show ?thesis using ok by (simp add: stopDrawing_def)
next
  case True
  let ?w1 = "w\<lparr>st := (st w)\<lparr>isDrawing := False\<rparr>\<rparr>"
  have ok1: "log_ok ?w1" using ok by (simp add: log_ok_def)
  show ?thesis
  proof (cases "currentStroke (st w)")
    case None
    then show ?thesis using True ok1
      by (simp add: stopDrawing_def Let_def log_ok_def)
  next
    case (Some cs)
    show ?thesis
    proof (cases "length (points cs) > 1")
      case False
      then show ?thesis using True Some ok1
        by (simp add: stopDrawing_def Let_def log_ok_def)
    next
      case long: True
      let ?w2 = "?w1\<lparr>st := (st ?w1)\<lparr>drawingData := drawingData (st ?w1) @ [cs]\<rparr>\<rparr>"
      have "log_ok ?w2" using ok1 long by (auto simp: log_ok_def)
      then have "log_ok (saveDrawingToStorage ?w2)" by (rule saveDrawingToStorage_log_ok)
      then show ?thesis using True Some long
        by (simp add: stopDrawing_def Let_def log_ok_def)
    qed
  qed
qed

lemma stopDrawing_short:
  "(case currentStroke (st w) of None \<Rightarrow> True | Some cs \<Rightarrow> length (points cs) < 2) \<Longrightarrow>
   drawingData (st (stopDrawing w)) = drawingData (st w) \<and>
   localStorage (stopDrawing w) = localStorage w"
  by (auto simp: stopDrawing_def Let_def split: option.splits)

lemma startDrawing_log_ok: "log_ok w \<Longrightarrow> log_ok (startDrawing d a b w)"
  by (simp add: startDrawing_def Let_def log_ok_def)

lemma draw_log_ok: "log_ok w \<Longrightarrow> log_ok (draw d a b w)"
  by (simp add: draw_def Let_def log_ok_def split: option.splits)

lemma resetPending_log_ok: "log_ok w \<Longrightarrow> log_ok (resetPending w)"
  by (simp add: resetPending_def log_ok_def)

lemma checkLongPressMovement_log_ok: "log_ok w \<Longrightarrow> log_ok (checkLongPressMovement a b w)"
  by (simp add: log_ok_def)

lemma cancelLongPressDetection_log_ok: "log_ok w \<Longrightarrow> log_ok (cancelLongPressDetection w)"
  by (simp add: cancelLongPressDetection_def log_ok_def)

lemma touchstart_log_ok: "log_ok w \<Longrightarrow> log_ok (touchstart d ts w)"
  by (simp add: touchstart_def Let_def log_ok_def startLongPressDetection_def resetPending_def
        split: list.splits)

lemma touchmove_confirm_log_ok: "log_ok w \<Longrightarrow> log_ok (touchmove_confirm w)"
  by (simp add: touchmove_confirm_def Let_def log_ok_def)

lemma ctx_update_log_ok: "log_ok w \<Longrightarrow> log_ok (w\<lparr>st := (st w)\<lparr>ctx := c\<rparr>\<rparr>)"
  by (simp add: log_ok_def)

lemma touchmove_paint_log_ok:
  assumes ok: "log_ok w"
  shows "log_ok (touchmove_paint d t b w)"
proof -
  have stop: "log_ok (stopDrawing w)" using ok by (rule stopDrawing_log_ok)
  show ?thesis
    using ok ctx_update_log_ok [OF stop]
    by (simp add: touchmove_paint_def Let_def log_ok_def split: option.splits)
qed

lemma touchmove_log_ok: "log_ok w \<Longrightarrow> log_ok (touchmove d ts w)"
  by (simp add: touchmove_def Let_def touchmove_paint_log_ok touchmove_confirm_log_ok
        resetPending_log_ok stopDrawing_log_ok split: list.splits)

lemma touchend_log_ok: "log_ok w \<Longrightarrow> log_ok (touchend w)"
  by (simp add: touchend_def Let_def resetPending_log_ok stopDrawing_log_ok
        cancelLongPressDetection_log_ok)

lemma handle_log_ok: "log_ok w \<Longrightarrow> log_ok (handle e w)"
  by (cases e) (simp_all add: touchstart_log_ok touchmove_log_ok touchend_log_ok
       startDrawing_log_ok draw_log_ok stopDrawing_log_ok)

lemma run_log_ok: "log_ok w \<Longrightarrow> log_ok (run evs w)"
  unfolding run_def by (induction evs arbitrary: w) (simp_all add: handle_log_ok)

lemma clearDrawing_log_ok:
  assumes ok: "log_ok w"
  shows "log_ok (clearDrawing w)"
proof -
  have "log_ok (w\<lparr>st := (st w)\<lparr>ctx := clearRect_all (ctx (st w)), drawingData := []\<rparr>\<rparr>)"
    using ok by (simp add: log_ok_def)
  then show ?thesis unfolding clearDrawing_def by (rule saveDrawingToStorage_log_ok)
qed

lemma loadDrawingData_log_ok: "log_ok w \<Longrightarrow> log_ok (loadDrawingData d w)"
  by (auto simp: loadDrawingData_def log_ok_def redrawCanvas_def Let_def ran_def
        split: option.splits)

text \<open>
  Claim C10. In the single-canvas variant \<^verbatim>\<open>stopDrawing\<close> discards a current stroke of
  fewer than two points: it is not appended to the stroke log and nothing is written to
  storage. Hence every stroke of the log and of the stored logs has at least two points:
  that holds at the start and is kept by every mouse and touch event, by clearing and by
  loading.
\<close>

theorem short_stroke_discarded:
  "((case currentStroke (st w) of None \<Rightarrow> True | Some cs \<Rightarrow> length (points cs) < 2) \<longrightarrow>
      drawingData (st (stopDrawing w)) = drawingData (st w) \<and>
      localStorage (stopDrawing w) = localStorage w) \<and>
   log_ok initial_world \<and>
   (log_ok w \<longrightarrow> log_ok (run evs w) \<and> log_ok (clearDrawing w) \<and> log_ok (loadDrawingData d w))"
proof -
  have "log_ok initial_world"
    by (simp add: log_ok_def initial_world_def initial_state_def)
  then show ?thesis
    using stopDrawing_short [of w] run_log_ok [of w evs] clearDrawing_log_ok [of w]
      loadDrawingData_log_ok [of w d]
    by blast
qed

theorem short_stroke_discarded_witness:
  "currentStroke (st (startDrawing page 10 10 ready_world)) =
     Some \<lparr>tool = ''pen'', color = ''#ef4444'', width = 4, points = [\<lparr>pt_x = 10, pt_y = 40\<rparr>]\<rparr> \<and>
   log_ok (startDrawing page 10 10 ready_world) \<and>
   drawingData (st (stopDrawing (startDrawing page 10 10 ready_world))) = [] \<and>
   localStorage (stopDrawing (startDrawing page 10 10 ready_world)) = Map.empty \<and>
   log_ok (run [MouseMove page 10 50, MouseUp] (startDrawing page 10 10 ready_world))"
proof -
  let ?w = "startDrawing page 10 10 ready_world"
  have cs: "currentStroke (st ?w) =
     Some \<lparr>tool = ''pen'', color = ''#ef4444'', width = 4, points = [\<lparr>pt_x = 10, pt_y = 40\<rparr>]\<rparr>"
    by (simp add: startDrawing_def ready_world_def initial_world_def initial_state_def
          Let_def page_def scrollTopOr0_def)
  have short: "(case currentStroke (st ?w) of None \<Rightarrow> True
                | Some cs \<Rightarrow> length (points cs) < 2)"
    by (simp add: cs)
  have before: "drawingData (st ?w) = [] \<and> localStorage ?w = Map.empty"
    by (simp add: startDrawing_def ready_world_def initial_world_def initial_state_def Let_def)
  have ok: "log_ok ?w" using before by (simp add: log_ok_def)
  show ?thesis
    using short_stroke_discarded [of ?w "[MouseMove page 10 50, MouseUp]" page]
      cs short before ok
    by simp
qed

subsection \<open>Delayed confirmation\<close>

lemma touchmove_idle:
  "idle w \<Longrightarrow> idle (touchmove d ts w) \<and> surface (ctx (st (touchmove d ts w))) = surface (ctx (st w))"
  by (auto simp: idle_def touchmove_def resetPending_def stopDrawing_def split: list.splits)

lemma run_moves_idle:
  "idle w \<Longrightarrow> \<forall>e \<in> set evs. is_move e \<Longrightarrow>
   idle (run evs w) \<and> surface (ctx (st (run evs w))) = surface (ctx (st w))"
proof (induction evs arbitrary: w)
  case Nil
  then show ?case by (simp add: run_def)
next
  case (Cons e evs)
  from Cons.prems obtain d ts where e: "e = TouchMove d ts"
    by (cases e) (auto simp: is_move_def)
  have step: "idle (touchmove d ts w) \<and> surface (ctx (st (touchmove d ts w))) = surface (ctx (st w))"
    using Cons.prems(1) by (rule touchmove_idle)
  have "idle (run evs (touchmove d ts w)) \<and>
        surface (ctx (st (run evs (touchmove d ts w)))) = surface (ctx (st (touchmove d ts w)))"
    using step Cons.prems(2) by (intro Cons.IH) auto
  then show ?case using step e by (simp add: run_def)
qed

lemma touchstart_awaiting:
  "drawingActive (st w) \<Longrightarrow> \<not> isDrawing (st w) \<Longrightarrow> isStylus t \<Longrightarrow> in_wrapper d t \<Longrightarrow>
   awaiting 1 (touchstart d [t] w) \<and> st (touchstart d [t] w) = st w \<and>
   startX (pendingStroke (touchstart d [t] w)) = clientX t - canvasLeft d \<and>
   startY (pendingStroke (touchstart d [t] w)) = clientY t - canvasTop d \<and>
   contentX (pendingStroke (touchstart d [t] w)) = clientX t - canvasLeft d \<and>
   contentY (pendingStroke (touchstart d [t] w)) = (clientY t - canvasTop d) + scrollTopOr0 d"
  by (simp add: touchstart_def in_wrapper_def awaiting_def Let_def startLongPressDetection_def)

lemma move_abort:
  "awaiting n w \<Longrightarrow> is_move e \<Longrightarrow> \<not> stylus_move e \<Longrightarrow>
   idle (handle e w) \<and> st (handle e w) = st w"
  by (cases e)
     (auto simp: awaiting_def is_move_def stylus_move_def idle_def touchmove_def resetPending_def
        stopDrawing_def split: list.splits)

lemma move_count:
  "awaiting n w \<Longrightarrow> n < 2 \<Longrightarrow> stylus_move e \<Longrightarrow>
   awaiting (Suc n) (handle e w) \<and> st (handle e w) = st w \<and>
   startX (pendingStroke (handle e w)) = startX (pendingStroke w) \<and>
   startY (pendingStroke (handle e w)) = startY (pendingStroke w) \<and>
   contentX (pendingStroke (handle e w)) = contentX (pendingStroke w) \<and>
   contentY (pendingStroke (handle e w)) = contentY (pendingStroke w)"
  by (cases e)
     (auto simp: awaiting_def stylus_move_def touchmove_def touchmove_confirm_def
        touchmove_paint_def Let_def split: list.splits)

lemma confirm_inking:
  "awaiting n w \<Longrightarrow> 2 \<le> n \<Longrightarrow> stylus_move e \<Longrightarrow>
   inking \<lparr>pt_x = contentX (pendingStroke w), pt_y = contentY (pendingStroke w)\<rparr>
     (MoveTo (startX (pendingStroke w)) (startY (pendingStroke w)))
     (surface (ctx (st w))) (drawingData (st w)) (handle e w)"
  by (cases e)
     (auto simp: awaiting_def stylus_move_def touchmove_def touchmove_confirm_def
        touchmove_paint_def Let_def stroke_def lineTo_def moveTo_def beginPath_def inking_def
        split: list.splits)

lemma inking_painted: "inking p0 m base logged w \<Longrightarrow> surface (ctx (st w)) \<noteq> base"
  by (auto simp: inking_def)

lemma inking_move:
  "inking p0 m base logged w \<Longrightarrow> stylus_move e \<Longrightarrow> inking p0 m base logged (handle e w)"
  by (cases e)
     (auto simp: stylus_move_def touchmove_def touchmove_paint_def Let_def stroke_def
        lineTo_def inking_def split: list.splits)

lemma inking_run:
  "inking p0 m base logged w \<Longrightarrow> \<forall>e \<in> set evs. stylus_move e \<Longrightarrow>
   inking p0 m base logged (run evs w)"
proof (induction evs arbitrary: w)
  case Nil
  then show ?case by (simp add: run_Nil)
next
  case (Cons e evs)
  have "inking p0 m base logged (handle e w)"
    using Cons.prems by (intro inking_move) auto
  then have "inking p0 m base logged (run evs (handle e w))"
    using Cons.prems by (intro Cons.IH) auto
  then show ?case by (simp add: run_Cons)
qed

lemma inking_end:
  "inking p0 m base logged w \<Longrightarrow>
   (\<exists>s rest. drawingData (st (touchend w)) = logged @ [s] \<and> points s = p0 # rest \<and> rest \<noteq> []) \<and>
   (\<exists>inks. surface (ctx (st (touchend w))) = base @ inks \<and> inks \<noteq> [] \<and>
         (\<forall>k \<in> set inks. \<exists>q a b c. k = StrokeInk (m # q) a b c)) \<and>
   idle (touchend w)"
  by (auto simp: inking_def touchend_def Let_def resetPending_def cancelLongPressDetection_def
        stopDrawing_def idle_def)

lemma confirms_take2: "confirms (take 2 evs) = confirms evs"
proof (cases evs)
  case Nil
  then show ?thesis by simp
next
  case (Cons a as)
  then show ?thesis by (cases as) (simp_all add: numeral_2_eq_2)
qed

lemma no_confirm_surface:
  assumes aw: "awaiting 1 v" and moves: "\<forall>e \<in> set evs. is_move e" and nc: "\<not> confirms evs"
  shows "surface (ctx (st (run evs v))) = surface (ctx (st v)) \<and>
         (\<not> (\<forall>e \<in> set evs. stylus_move e) \<longrightarrow> idle (run evs v))"
proof (cases evs)
  case Nil
  then show ?thesis by (simp add: run_Nil)
next
  case (Cons e1 es)
  have m1: "is_move e1" using moves Cons by simp
  have mes: "\<forall>e \<in> set es. is_move e" using moves Cons by simp
  show ?thesis
  proof (cases "stylus_move e1")
    case False
    have ab: "idle (handle e1 v) \<and> st (handle e1 v) = st v"
      using aw m1 False by (rule move_abort)
    have "idle (run es (handle e1 v)) \<and>
          surface (ctx (st (run es (handle e1 v)))) = surface (ctx (st (handle e1 v)))"
      using ab mes by (intro run_moves_idle) auto
    then show ?thesis using ab Cons by (simp add: run_Cons)
  next
    case s1: True
    have c1: "awaiting (Suc 1) (handle e1 v) \<and> st (handle e1 v) = st v"
      using move_count [OF aw _ s1] by simp
    show ?thesis
    proof (cases es)
      case Nil
      then show ?thesis using c1 Cons s1 by (simp add: run_Cons run_Nil)
    next
      case (Cons e2 rest)
      have m2: "is_move e2" using mes Cons by simp
      have mrest: "\<forall>e \<in> set rest. is_move e" using mes Cons by simp
      have n2: "\<not> stylus_move e2" using nc s1 \<open>evs = e1 # es\<close> Cons by simp
      have ab: "idle (handle e2 (handle e1 v)) \<and> st (handle e2 (handle e1 v)) = st (handle e1 v)"
        using c1 m2 n2 by (intro move_abort [where n = "Suc 1"]) auto
      have "idle (run rest (handle e2 (handle e1 v))) \<and>
            surface (ctx (st (run rest (handle e2 (handle e1 v))))) =
              surface (ctx (st (handle e2 (handle e1 v))))"
        using ab mrest by (intro run_moves_idle) auto
      then show ?thesis using ab c1 Cons \<open>evs = e1 # es\<close> by (simp add: run_Cons)
    qed
  qed
qed

lemma confirm_paints:
  assumes aw: "awaiting 1 v" and c: "confirms evs"
  shows "surface (ctx (st (run (take 2 evs) v))) \<noteq> surface (ctx (st v))"
proof -
  from c obtain e1 e2 rest where evs: "evs = e1 # e2 # rest"
    and s1: "stylus_move e1" and s2: "stylus_move e2"
    by (cases evs rule: confirms.cases) auto
  have c1: "awaiting (Suc 1) (handle e1 v) \<and> st (handle e1 v) = st v"
    using move_count [OF aw _ s1] by simp
  then have aw2: "awaiting 2 (handle e1 v)" by (simp add: numeral_2_eq_2)
  have "surface (ctx (st (handle e2 (handle e1 v)))) \<noteq> surface (ctx (st (handle e1 v)))"
    using confirm_inking [OF aw2 _ s2] by (intro inking_painted) auto
  then show ?thesis using c1 evs by (simp add: run_Cons run_Nil numeral_2_eq_2)
qed

text \<open>
  Claim C1, as amended. In the touch handlers of the single-canvas variant the contact
  that passes the classifier counts as the first of three stylus samples: it paints
  nothing and leaves the gesture pending with count 1, and the visible stroke starts at
  the second consecutive move event of one touch that passes the classifier. While the
  gesture is pending, a move event that fails the classifier or carries a touch count
  other than 1 aborts it to idle without painting. So for move events after the contact,
  the surface is identical to its state before the gesture unless the first two of them
  both pass, and it differs after those two when they do.
\<close>

theorem palm_rejection:
  assumes act: "drawingActive (st w)" and nd: "\<not> isDrawing (st w)"
    and sty: "isStylus t" and inw: "in_wrapper d t"
    and moves: "\<forall>e \<in> set evs. is_move e"
  shows "awaiting 1 (run [TouchStart d [t]] w) \<and>
         surface (ctx (st (run [TouchStart d [t]] w))) = surface (ctx (st w)) \<and>
         (\<not> confirms evs \<longrightarrow>
            surface (ctx (st (run (TouchStart d [t] # evs) w))) = surface (ctx (st w))) \<and>
         (\<not> confirms evs \<and> \<not> (\<forall>e \<in> set evs. stylus_move e) \<longrightarrow>
            idle (run (TouchStart d [t] # evs) w)) \<and>
         ((surface (ctx (st (run (TouchStart d [t] # take 2 evs) w))) \<noteq> surface (ctx (st w)))
            = confirms evs)"
proof -
  let ?v = "touchstart d [t] w"
  have ts: "awaiting 1 ?v \<and> st ?v = st w"
    using touchstart_awaiting [OF act nd sty inw] by simp
  then have aw: "awaiting 1 ?v" and same: "st ?v = st w" by simp_all
  have nc: "\<not> confirms evs \<Longrightarrow>
      surface (ctx (st (run evs ?v))) = surface (ctx (st ?v)) \<and>
      (\<not> (\<forall>e \<in> set evs. stylus_move e) \<longrightarrow> idle (run evs ?v))"
    using no_confirm_surface [OF aw moves] by simp
  have moves2: "\<forall>e \<in> set (take 2 evs). is_move e"
    using moves by (auto dest: in_set_takeD)
  have two: "(surface (ctx (st (run (take 2 evs) ?v))) \<noteq> surface (ctx (st ?v))) = confirms evs"
  proof (cases "confirms evs")
    case True
    then show ?thesis using confirm_paints [OF aw True] by simp
  next
    case False
    then have "\<not> confirms (take 2 evs)" by (simp add: confirms_take2)
    then show ?thesis using no_confirm_surface [OF aw moves2] False by simp
  qed
  show ?thesis using ts nc two same by (simp add: run_Cons run_Nil)
qed

lemma sample_facts:
  "drawingActive (st ready_world) \<and> \<not> isDrawing (st ready_world) \<and> isStylus pen_touch \<and>
   \<not> isStylus palm_touch \<and> in_wrapper page pen_touch \<and>
   surface (ctx (st ready_world)) = [] \<and> drawingData (st ready_world) = []"
  by (simp add: ready_world_def initial_world_def initial_state_def initial_ctx_def
        isStylus_def pen_touch_def palm_touch_def in_wrapper_def page_def)

theorem palm_rejection_witness:
  "drawingActive (st ready_world) \<and> \<not> isDrawing (st ready_world) \<and> isStylus pen_touch \<and>
   in_wrapper page pen_touch \<and>
   \<not> confirms [TouchMove page [pen_touch], TouchMove page [palm_touch], TouchMove page [pen_touch]] \<and>
   surface (ctx (st (run [TouchStart page [pen_touch], TouchMove page [pen_touch],
       TouchMove page [palm_touch], TouchMove page [pen_touch]] ready_world))) = [] \<and>
   idle (run [TouchStart page [pen_touch], TouchMove page [pen_touch],
       TouchMove page [palm_touch], TouchMove page [pen_touch]] ready_world)"
proof -
  let ?evs = "[TouchMove page [pen_touch], TouchMove page [palm_touch], TouchMove page [pen_touch]]"
  have f: "drawingActive (st ready_world)" "\<not> isDrawing (st ready_world)" "isStylus pen_touch"
    "in_wrapper page pen_touch" "\<not> isStylus palm_touch" "surface (ctx (st ready_world)) = []"
    using sample_facts by simp_all
  have mv: "\<forall>e \<in> set ?evs. is_move e" by (simp add: is_move_def)
  have nc: "\<not> confirms ?evs" using f by (simp add: stylus_move_def)
  have fail: "\<not> (\<forall>e \<in> set ?evs. stylus_move e)" using f by (simp add: stylus_move_def)
  show ?thesis
    using palm_rejection [OF f(1) f(2) f(3) f(4) mv] f nc fail by simp
qed

text \<open>
  The claim as stated asks for three move events that pass the classifier before the
  stroke starts. Two are enough: after the contact and two stylus moves the surface has
  changed.
\<close>

theorem palm_rejection_counterexample:
  "surface (ctx (st (run [TouchStart page [pen_touch], TouchMove page [pen_touch],
       TouchMove page [pen_touch]] ready_world))) \<noteq> surface (ctx (st ready_world))"
proof -
  have f: "drawingActive (st ready_world)" "\<not> isDrawing (st ready_world)" "isStylus pen_touch"
    "in_wrapper page pen_touch"
    using sample_facts by simp_all
  have aw: "awaiting 1 (touchstart page [pen_touch] ready_world)"
    and same: "st (touchstart page [pen_touch] ready_world) = st ready_world"
    using touchstart_awaiting [OF f] by simp_all
  have c: "confirms [TouchMove page [pen_touch], TouchMove page [pen_touch]]"
    using f by (simp add: stylus_move_def)
  show ?thesis
    using confirm_paints [OF aw c] same by (simp add: run_Cons)
qed

text \<open>
  Claim C8. Once a pending gesture is confirmed, the stroke that is committed when the
  gesture ends has as its first point the contact point recorded at touch start (in
  content coordinates), and every path painted for it starts with a \<^verbatim>\<open>moveTo\<close> at the
  screen position of that contact; the positions of the confirming moves come after it.
\<close>

theorem replay_from_contact:
  assumes act: "drawingActive (st w)" and nd: "\<not> isDrawing (st w)"
    and sty: "isStylus t" and inw: "in_wrapper d t"
    and s1: "stylus_move e1" and s2: "stylus_move e2"
    and more: "\<forall>e \<in> set evs. stylus_move e"
  shows "(\<exists>s rest.
            drawingData (st (run (TouchStart d [t] # e1 # e2 # evs @ [TouchEnd]) w)) =
              drawingData (st w) @ [s] \<and>
            points s = \<lparr>pt_x = clientX t - canvasLeft d,
                        pt_y = (clientY t - canvasTop d) + scrollTopOr0 d\<rparr> # rest \<and> rest \<noteq> []) \<and>
         (\<exists>inks.
            surface (ctx (st (run (TouchStart d [t] # e1 # e2 # evs @ [TouchEnd]) w))) =
              surface (ctx (st w)) @ inks \<and> inks \<noteq> [] \<and>
            (\<forall>k \<in> set inks. \<exists>q a b c.
               k = StrokeInk (MoveTo (clientX t - canvasLeft d) (clientY t - canvasTop d) # q) a b c))"
proof -
  let ?v = "touchstart d [t] w"
  let ?p0 = "\<lparr>pt_x = clientX t - canvasLeft d, pt_y = (clientY t - canvasTop d) + scrollTopOr0 d\<rparr>"
  let ?m = "MoveTo (clientX t - canvasLeft d) (clientY t - canvasTop d)"
  note ts = touchstart_awaiting [OF act nd sty inw]
  have aw: "awaiting 1 ?v" using ts by simp
  note c1 = move_count [OF aw _ s1]
  have aw2: "awaiting 2 (handle e1 ?v)" using c1 by (simp add: numeral_2_eq_2)
  have "inking \<lparr>pt_x = contentX (pendingStroke (handle e1 ?v)), pt_y = contentY (pendingStroke (handle e1 ?v))\<rparr>
     (MoveTo (startX (pendingStroke (handle e1 ?v))) (startY (pendingStroke (handle e1 ?v))))
     (surface (ctx (st (handle e1 ?v)))) (drawingData (st (handle e1 ?v))) (handle e2 (handle e1 ?v))"
    using aw2 _ s2 by (rule confirm_inking) simp
  then have "inking ?p0 ?m (surface (ctx (st w))) (drawingData (st w)) (handle e2 (handle e1 ?v))"
    using c1 ts by simp
  then have "inking ?p0 ?m (surface (ctx (st w))) (drawingData (st w)) (run evs (handle e2 (handle e1 ?v)))"
    using more by (rule inking_run)
  from inking_end [OF this] show ?thesis
    by (simp add: run_Cons run_append run_Nil)
qed

theorem replay_from_contact_witness:
  "drawingActive (st ready_world) \<and> \<not> isDrawing (st ready_world) \<and> isStylus pen_touch \<and>
   in_wrapper page pen_touch \<and>
   stylus_move (TouchMove page [pen_touch\<lparr>clientY := 50\<rparr>]) \<and>
   (\<exists>s rest.
      drawingData (st (run [TouchStart page [pen_touch],
          TouchMove page [pen_touch\<lparr>clientY := 50\<rparr>],
          TouchMove page [pen_touch\<lparr>clientX := 50, clientY := 50\<rparr>], TouchEnd] ready_world)) = [s] \<and>
      points s = \<lparr>pt_x = 10, pt_y = 40\<rparr> # rest \<and> rest \<noteq> [])"
proof -
  have f: "drawingActive (st ready_world)" "\<not> isDrawing (st ready_world)" "isStylus pen_touch"
    "in_wrapper page pen_touch" "drawingData (st ready_world) = []"
    using sample_facts by simp_all
  have m1: "stylus_move (TouchMove page [pen_touch\<lparr>clientY := 50\<rparr>])"
    and m2: "stylus_move (TouchMove page [pen_touch\<lparr>clientX := 50, clientY := 50\<rparr>])"
    by (simp_all add: stylus_move_def isStylus_def pen_touch_def)
  have no: "\<forall>e \<in> set []. stylus_move e" by simp
  have at: "clientX pen_touch - canvasLeft page = 10 \<and>
            (clientY pen_touch - canvasTop page) + scrollTopOr0 page = 40"
    by (simp add: pen_touch_def page_def scrollTopOr0_def)
  show ?thesis
    using replay_from_contact [OF f(1) f(2) f(3) f(4) m1 m2 no] f m1 at by simp
qed

subsection \<open>The brush of a touch stroke\<close>





lemma stale_brush:
  assumes b: "brushed sty n op base w" and t: "isStylus t"
  shows "\<exists>p. last (surface (ctx (st (touchmove d [t] (setTool x w))))) = StrokeInk p sty n op"
  using b t
  by (auto simp: brushed_def setTool_def touchmove_def touchmove_paint_def Let_def stroke_def
        lineTo_def split: option.splits)





subsection \<open>The points of a touch stroke\<close>






subsection \<open>Rounding\<close>






section \<open>Properties of the dual-pane variant\<close>

subsection \<open>The classifiers\<close>

text \<open>
  Claim C2, as amended. The classifier of the dual-pane variant is a function of the
  touch type and the two radii alone: an explicit touch type is trusted; with no touch
  type and a radius missing it returns true; with no touch type and both radii, an
  average below 8 gives true and an average above 15 gives false. The classifier of the
  single-canvas touch handlers is strict: it returns true exactly for the touch type
  stylus, so false when no touch type is reported, whatever the radii; and each call
  writes the touch type, the result and a log line to the debug panel when the panel is
  in the document.
\<close>

theorem classifiers:
  "(touchType t = None \<and> (radiusX t = None \<or> radiusY t = None) \<longrightarrow> isStylus_gc t) \<and>
   (touchType t = None \<and> radiusX t = Some rx \<and> radiusY t = Some ry \<and> (rx + ry) / 2 < 8
      \<longrightarrow> isStylus_gc t) \<and>
   (touchType t = None \<and> radiusX t = Some rx \<and> radiusY t = Some ry \<and> (rx + ry) / 2 > 15
      \<longrightarrow> \<not> isStylus_gc t) \<and>
   (touchType t = Some ty \<longrightarrow> isStylus_gc t = (ty = ''stylus'')) \<and>
   (touchType t = touchType u \<and> radiusX t = radiusX u \<and> radiusY t = radiusY u
      \<longrightarrow> isStylus_gc t = isStylus_gc u) \<and>
   isStylus t = (touchType t = Some ''stylus'') \<and>
   (isStylus_debug t (Some p) =
      Some (p\<lparr>debug_touch_type := (case touchType t of None \<Rightarrow> ''undefined'' | Some ty \<Rightarrow> ty),
              debug_is_stylus := Some (isStylus t),
              debug_log := take 20
                ((''isStylus='' @ (if isStylus t then ''true'' else ''false'')) # debug_log p)\<rparr>))"
  by (auto simp: isStylus_gc_def isStylus_def isStylus_debug_def addDebugLog_def Let_def
        split: option.splits)

theorem classifiers_witness:
  "isStylus_gc bare_touch \<and> isStylus_gc fine_touch \<and> \<not> isStylus_gc wide_touch \<and>
   isStylus_gc pen_touch \<and> \<not> isStylus_gc palm_touch \<and>
   isStylus_gc (bare_touch\<lparr>clientX := 77\<rparr>) = isStylus_gc bare_touch \<and>
   \<not> isStylus fine_touch"
proof -
  have b: "touchType bare_touch = None \<and> (radiusX bare_touch = None \<or> radiusY bare_touch = None)"
    by (simp add: bare_touch_def)
  have f: "touchType fine_touch = None \<and> radiusX fine_touch = Some 2 \<and>
           radiusY fine_touch = Some 2 \<and> ((2::real) + 2) / 2 < 8"
    by (simp add: fine_touch_def)
  have w: "touchType wide_touch = None \<and> radiusX wide_touch = Some 20 \<and>
           radiusY wide_touch = Some 20 \<and> ((20::real) + 20) / 2 > 15"
    by (simp add: wide_touch_def)
  have p: "touchType pen_touch = Some ''stylus''" by (simp add: pen_touch_def)
  have q: "touchType palm_touch = Some ''direct''" by (simp add: palm_touch_def)
  have m: "touchType (bare_touch\<lparr>clientX := 77\<rparr>) = touchType bare_touch \<and>
           radiusX (bare_touch\<lparr>clientX := 77\<rparr>) = radiusX bare_touch \<and>
           radiusY (bare_touch\<lparr>clientX := 77\<rparr>) = radiusY bare_touch"
    by simp
  show ?thesis
    using classifiers [of bare_touch 0 0 "''x''" bare_touch]
      classifiers [of fine_touch 2 2 "''x''" fine_touch]
      classifiers [of wide_touch 20 20 "''x''" wide_touch]
      classifiers [of pen_touch 0 0 "''stylus''" pen_touch]
      classifiers [of palm_touch 0 0 "''direct''" palm_touch]
      classifiers [of "bare_touch\<lparr>clientX := 77\<rparr>" 0 0 "''x''" bare_touch]
      b f w p q m
    by simp
qed

text \<open>
  The claim as stated fails for the classifier of the touch handlers: with no touch type
  and no radius it returns false, with a radius of 2 it returns false as well, and the
  call changes the debug panel.
\<close>

theorem classifiers_counterexample:
  "touchType bare_touch = None \<and> radiusX bare_touch = None \<and> radiusY bare_touch = None \<and>
   \<not> isStylus bare_touch \<and> \<not> isStylus fine_touch \<and>
   isStylus_debug bare_touch
     (Some \<lparr>debug_touch_type = '''', debug_is_stylus = None, debug_log = []\<rparr>) \<noteq>
     Some \<lparr>debug_touch_type = '''', debug_is_stylus = None, debug_log = []\<rparr>"
  by (simp add: bare_touch_def fine_touch_def isStylus_def isStylus_debug_def addDebugLog_def
        Let_def)

subsection \<open>The debounced autosave\<close>

lemma tick_quiet:
  assumes q: "quiet T g"
  shows "tm (tick T g) = (tm g)\<lparr>now := T\<rparr> \<and> ds (tick T g) = ds g"
proof -
  have due: "\<forall>e \<in> set (armed (tm g)). \<not> snd e \<le> T"
    using q by (auto simp: quiet_def)
  have f1: "filter (\<lambda>e. snd e \<le> T) (armed (tm g)) = []"
    using due by (simp add: filter_empty_conv)
  have f2: "filter (\<lambda>e. \<not> snd e \<le> T) (armed (tm g)) = armed (tm g)"
    using due by (simp add: filter_id_conv)
  have n: "max (now (tm g)) T = T" using q by (simp add: quiet_def max_def)
  show ?thesis by (simp add: tick_def advance_def f1 f2 n)
qed

lemma clear_owned:
  assumes own: "timer_owned g"
  shows "armed (clearTimeout (autoSaveTimer (ds g)) (tm g)) = []"
proof (cases "autoSaveTimer (ds g)")
  case None
  have "armed (tm g) = []"
  proof (cases "armed (tm g)")
    case Nil
    then show ?thesis .
  next
    case (Cons e es)
    then have "e \<in> set (armed (tm g))" by simp
    with own have "autoSaveTimer (ds g) = Some (fst e)"
      unfolding timer_owned_def by blast
    with None show ?thesis by simp
  qed
  then show ?thesis using None by (simp add: clearTimeout_def)
next
  case (Some i)
  then have "\<forall>e \<in> set (armed (tm g)). fst e = i" using own by (auto simp: timer_owned_def)
  then show ?thesis using Some by (simp add: clearTimeout_def filter_empty_conv)
qed

lemma clearTimeout_other:
  "now (clearTimeout h t) = now t \<and> next_id (clearTimeout h t) = next_id t \<and>
   save_calls (clearTimeout h t) = save_calls t"
  by (simp add: clearTimeout_def split: option.splits)

lemma stop_after_tick:
  assumes q: "quiet T g"
  shows "armed (tm (stopDrawing_gc (tick T g))) = [(next_id (tm g), T + 1000)] \<and>
         autoSaveTimer (ds (stopDrawing_gc (tick T g))) = Some (next_id (tm g)) \<and>
         save_calls (tm (stopDrawing_gc (tick T g))) = save_calls (tm g) \<and>
         now (tm (stopDrawing_gc (tick T g))) = T"
proof -
  let ?g = "tick T g"
  have t: "tm ?g = (tm g)\<lparr>now := T\<rparr>" and d: "ds ?g = ds g"
    using tick_quiet [OF q] by simp_all
  have own: "timer_owned ?g" using q t d by (simp add: quiet_def timer_owned_def)
  have ap: "autoSaveTimer (closePath_pane ((ds ?g)\<lparr>gc_isDrawing := False\<rparr>)) = autoSaveTimer (ds ?g)"
    by (simp add: closePath_pane_def split: option.splits)
  have cl: "armed (clearTimeout (autoSaveTimer (ds ?g)) (tm ?g)) = []"
    using own by (rule clear_owned)
  show ?thesis
    using cl clearTimeout_other [of "autoSaveTimer (ds ?g)" "tm ?g"] t
    by (simp add: stopDrawing_gc_def Let_def setTimeout_def ap)
qed

lemma stop_quiet:
  assumes q: "quiet T g" and le: "T \<le> T2" and lt: "T2 < T + 1000"
  shows "quiet T2 (stopDrawing_gc (tick T g))"
  using stop_after_tick [OF q] le lt by (simp add: quiet_def timer_owned_def)

lemma strokes_end_quiet:
  "quiet T g \<Longrightarrow> gaps_below 1000 (T # Ts) \<Longrightarrow>
   (\<exists>i. armed (tm (strokes_end (T # Ts) g)) = [(i, last (T # Ts) + 1000)] \<and>
        autoSaveTimer (ds (strokes_end (T # Ts) g)) = Some i) \<and>
   save_calls (tm (strokes_end (T # Ts) g)) = save_calls (tm g) \<and>
   now (tm (strokes_end (T # Ts) g)) = last (T # Ts)"
proof (induction Ts arbitrary: T g)
  case Nil
  then show ?case using stop_after_tick [OF Nil.prems(1)] by simp
next
  case (Cons T2 Ts)
  have le: "T \<le> T2" and lt: "T2 < T + 1000" and gb: "gaps_below 1000 (T2 # Ts)"
    using Cons.prems(2) by simp_all
  have q2: "quiet T2 (stopDrawing_gc (tick T g))"
    using Cons.prems(1) le lt by (rule stop_quiet)
  have sc: "save_calls (tm (stopDrawing_gc (tick T g))) = save_calls (tm g)"
    using stop_after_tick [OF Cons.prems(1)] by simp
  show ?case using Cons.IH [OF q2 gb] sc by simp
qed

text \<open>
  Claim C6. Each stroke end cancels the armed autosave timeout and arms a new one 1000 ms
  later. So for strokes that end at times each less than 1000 ms before the next, with
  no timeout armed at the start, the save runs exactly once, 1000 ms after the last
  stroke ended, and not before. Clearing the canvases and switching the view types
  cancel the armed timeout first: after them no timeout is armed and, however far the clock
  advances, no save runs.
\<close>

theorem debounce:
  assumes ne: "Ts \<noteq> []" and gaps: "gaps_below 1000 Ts"
    and none: "armed (tm g) = []" and start: "now (tm g) \<le> hd Ts"
  shows "(last Ts + 1000 \<le> T \<longrightarrow>
            save_calls (tm (tick T (strokes_end Ts g))) = save_calls (tm g) @ [last Ts + 1000]) \<and>
         (T < last Ts + 1000 \<longrightarrow>
            save_calls (tm (tick T (strokes_end Ts g))) = save_calls (tm g)) \<and>
         armed (tm (clearDrawing_gc (strokes_end Ts g))) = [] \<and>
         save_calls (tm (tick T (clearDrawing_gc (strokes_end Ts g)))) = save_calls (tm g) \<and>
         armed (tm (updateViewTypes lv rv (strokes_end Ts g))) = [] \<and>
         save_calls (tm (tick T (updateViewTypes lv rv (strokes_end Ts g)))) = save_calls (tm g)"
proof -
  obtain T0 Ts' where Ts: "Ts = T0 # Ts'" using ne by (cases Ts) auto
  have q: "quiet T0 g" using none start Ts by (simp add: quiet_def timer_owned_def)
  have gb: "gaps_below 1000 (T0 # Ts')" using gaps Ts by simp
  from strokes_end_quiet [OF q gb] obtain i where
    ar: "armed (tm (strokes_end Ts g)) = [(i, last Ts + 1000)]" and
    au: "autoSaveTimer (ds (strokes_end Ts g)) = Some i" and
    sc: "save_calls (tm (strokes_end Ts g)) = save_calls (tm g)"
    using Ts by auto
  show ?thesis using ar au sc
    by (simp add: tick_def advance_def clearDrawing_gc_def updateViewTypes_def Let_def
          clearTimeout_def)
qed

theorem debounce_witness:
  "gaps_below 1000 [0, 500, 1400] \<and> armed (tm initial_gc) = [] \<and>
   save_calls (tm (tick 2400 (strokes_end [0, 500, 1400] initial_gc))) = [2400] \<and>
   save_calls (tm (tick 2399 (strokes_end [0, 500, 1400] initial_gc))) = [] \<and>
   save_calls (tm (tick 9000 (clearDrawing_gc (strokes_end [0, 500, 1400] initial_gc)))) = [] \<and>
   save_calls (tm (tick 9000
     (updateViewTypes ''html'' ''notebook'' (strokes_end [0, 500, 1400] initial_gc)))) = []"
proof -
  have ne: "[0, 500, 1400] \<noteq> ([]::nat list)" by simp
  have gaps: "gaps_below 1000 [0, 500, 1400]" by simp
  have none: "armed (tm initial_gc) = []" and sc: "save_calls (tm initial_gc) = []"
    by (simp_all add: initial_gc_def)
  have start: "now (tm initial_gc) \<le> hd [0, 500, 1400]" by (simp add: initial_gc_def)
  show ?thesis
    using debounce [OF ne gaps none start, of 2400 "''html''" "''notebook''"]
      debounce [OF ne gaps none start, of 2399 "''html''" "''notebook''"]
      debounce [OF ne gaps none start, of 9000 "''html''" "''notebook''"] gaps none sc
    by simp
qed

subsection \<open>Saving\<close>

lemma hasContent_from_iff:
  "hasContent_from i pixels = (\<exists>k. i + 4 * k < length pixels \<and> pixels ! (i + 4 * k) \<noteq> 0)"
proof (induction i pixels rule: hasContent_from.induct)
  case (1 i pixels)
  show ?case
  proof (cases "i < length pixels")
    case False
    then show ?thesis by (subst hasContent_from.simps) simp
  next
    case inb: True
    show ?thesis
    proof (cases "pixels ! i > 0")
      case True
      then have "i + 4 * 0 < length pixels \<and> pixels ! (i + 4 * 0) \<noteq> 0"
        using inb by auto
      then have "\<exists>k. i + 4 * k < length pixels \<and> pixels ! (i + 4 * k) \<noteq> 0" by blast
      then show ?thesis using inb True by (subst hasContent_from.simps) simp
    next
      case False
      then have z: "pixels ! i = 0" by (simp add: word_greater_zero_iff)
      have ih: "hasContent_from (i + 4) pixels =
          (\<exists>k. i + 4 + 4 * k < length pixels \<and> pixels ! (i + 4 + 4 * k) \<noteq> 0)"
        using "1.IH" [OF inb False] .
      have "(\<exists>k. i + 4 + 4 * k < length pixels \<and> pixels ! (i + 4 + 4 * k) \<noteq> 0) =
            (\<exists>k. i + 4 * k < length pixels \<and> pixels ! (i + 4 * k) \<noteq> 0)"
      proof
        assume "\<exists>k. i + 4 + 4 * k < length pixels \<and> pixels ! (i + 4 + 4 * k) \<noteq> 0"
        then obtain k where "i + 4 + 4 * k < length pixels" "pixels ! (i + 4 + 4 * k) \<noteq> 0"
          by blast
        then have "i + 4 * Suc k < length pixels \<and> pixels ! (i + 4 * Suc k) \<noteq> 0"
          by (simp add: add.assoc)
        then show "\<exists>k. i + 4 * k < length pixels \<and> pixels ! (i + 4 * k) \<noteq> 0" by blast
      next
        assume "\<exists>k. i + 4 * k < length pixels \<and> pixels ! (i + 4 * k) \<noteq> 0"
        then obtain k where k: "i + 4 * k < length pixels" "pixels ! (i + 4 * k) \<noteq> 0"
          by blast
        then have "k \<noteq> 0" using z by (cases k) auto
        then obtain j where "k = Suc j" by (cases k) auto
        then have "i + 4 + 4 * j < length pixels \<and> pixels ! (i + 4 + 4 * j) \<noteq> 0"
          using k by (simp add: add.assoc)
        then show "\<exists>k. i + 4 + 4 * k < length pixels \<and> pixels ! (i + 4 + 4 * k) \<noteq> 0" by blast
      qed
      then show ?thesis using inb False ih by (subst hasContent_from.simps) simp
    qed
  qed
qed

lemma hasContent_iff: "hasContent pixels = (\<not> surface_empty pixels)"
proof -
  have "(\<exists>k. 3 + 4 * k < length pixels \<and> pixels ! (3 + 4 * k) \<noteq> 0) =
        (\<exists>k. 4 * k + 3 < length pixels \<and> pixels ! (4 * k + 3) \<noteq> 0)"
    by (simp add: add.commute)
  then show ?thesis by (simp add: hasContent_def hasContent_from_iff surface_empty_def)
qed


lemma delete_remote:
  "snd (api_deleteDrawing lid vt sv) =
     (if cond sv = Healthy \<or> cond sv = Refusing
      then sv\<lparr>drawings := (drawings sv)((lid, vt) := None)\<rparr> else sv)"
  by (cases "cond sv"; cases "drawings sv (lid, vt)")
     (simp_all add: api_deleteDrawing_def server_delete_def fun_upd_idem)

lemma save_empty_eq:
  "\<not> hasContent pixels \<Longrightarrow>
   saveCanvasData pixels cw ch dataURL info date_now lid vt s =
     (True, removeItem (storageKey lid vt)
        (s\<lparr>remote := snd (api_deleteDrawing lid vt (remote s)),
            calls := calls s @ [Delete lid vt]\<rparr>))"
  by (simp add: saveCanvasData_def Let_def split: prod.splits)

lemma post_remote:
  "api_saveDrawing lid vt r sv =
     (case cond sv of
        Healthy \<Rightarrow> (Inr True, sv\<lparr>drawings := (drawings sv)((lid, vt) \<mapsto> r)\<rparr>)
      | Unreachable \<Rightarrow> (Inl NetworkError, sv)
      | Failing n \<Rightarrow> (Inl (HttpError n), sv)
      | Refusing \<Rightarrow> (Inr False, sv))"
  by (simp add: api_saveDrawing_def server_post_def)

lemma save_healthy:
  assumes hc: "hasContent pixels" and h: "cond (remote s) = Healthy"
    and r: "r = \<lparr>version = ''2.0'', lessonId = lid, viewType = vt, timestamp = date_now,
                 canvasWidth = Some cw, canvasHeight = Some ch, imageData = dataURL,
                 compressionInfo = Some info\<rparr>"
  shows "saveCanvasData pixels cw ch dataURL info date_now lid vt s =
     (let s1 = s\<lparr>remote := (remote s)\<lparr>drawings := (drawings (remote s))((lid, vt) \<mapsto> r)\<rparr>,
                   calls := calls s @ [Post lid vt r]\<rparr>
      in case setItem (storageKey lid vt) r s1 of
           (None, s2) \<Rightarrow> (True, s2)
         | (Some e, s2) \<Rightarrow> save_fallback (storageKey lid vt) r s2)"
  unfolding r by (simp add: saveCanvasData_def hc h post_remote Let_def)

lemma save_not_healthy:
  assumes hc: "hasContent pixels" and h: "cond (remote s) \<noteq> Healthy"
    and r: "r = \<lparr>version = ''2.0'', lessonId = lid, viewType = vt, timestamp = date_now,
                 canvasWidth = Some cw, canvasHeight = Some ch, imageData = dataURL,
                 compressionInfo = Some info\<rparr>"
  shows "saveCanvasData pixels cw ch dataURL info date_now lid vt s =
     save_fallback (storageKey lid vt) r (s\<lparr>calls := calls s @ [Post lid vt r]\<rparr>)"
  using h unfolding r
  by (cases "cond (remote s)") (simp_all add: saveCanvasData_def hc post_remote Let_def)

lemma inked_pixels: "hasContent [0, 0, 0, 255]"
  by (simp add: hasContent_def hasContent_from.simps)

lemma clear_pixels: "\<not> hasContent [0, 0, 0, 0]"
  by (simp add: hasContent_def hasContent_from.simps)

text \<open>
  Claim C3. For a surface that is not empty, \<^verbatim>\<open>saveCanvasData\<close> posts the record to the
  remote tier first and then writes the same record to the local tier. When the remote
  write fails (the service is unreachable, answers an error status or refuses) the
  record lands in the local tier only and the call returns true as long as the local
  write succeeds; when the remote write succeeds the remote tier holds the record and the
  local tier holds the same record as a cache.
\<close>

theorem save_remote_first:
  assumes c: "\<not> surface_empty pixels"
    and r: "r = \<lparr>version = ''2.0'', lessonId = lid, viewType = vt, timestamp = date_now,
                 canvasWidth = Some cw, canvasHeight = Some ch, imageData = dataURL,
                 compressionInfo = Some info\<rparr>"
    and res: "res = saveCanvasData pixels cw ch dataURL info date_now lid vt s"
  shows "(\<exists>more. calls (snd res) =
             calls s @ Post lid vt r # SetItem (storageKey lid vt) r # more) \<and>
         (cond (remote s) \<noteq> Healthy \<and> \<not> local_full s \<longrightarrow>
            fst res = True \<and>
            local_tier (snd res) = (local_tier s)(storageKey lid vt \<mapsto> r) \<and>
            drawings (remote (snd res)) = drawings (remote s) \<and>
            calls (snd res) = calls s @ [Post lid vt r, SetItem (storageKey lid vt) r]) \<and>
         (cond (remote s) = Healthy \<and> \<not> local_full s \<longrightarrow>
            fst res = True \<and>
            drawings (remote (snd res)) = (drawings (remote s))((lid, vt) \<mapsto> r) \<and>
            local_tier (snd res) = (local_tier s)(storageKey lid vt \<mapsto> r) \<and>
            calls (snd res) = calls s @ [Post lid vt r, SetItem (storageKey lid vt) r])"
proof -
  have hc: "hasContent pixels" using c by (simp add: hasContent_iff)
  show ?thesis
  proof (cases "cond (remote s) = Healthy")
    case True
    show ?thesis
      unfolding res save_healthy [OF hc True r]
      using True by (simp add: Let_def setItem_def save_fallback_def)
  next
    case False
    show ?thesis
      unfolding res save_not_healthy [OF hc False r]
      using False by (simp add: Let_def setItem_def save_fallback_def)
  qed
qed

theorem save_remote_first_witness:
  "\<not> surface_empty [0, 0, 0, 255] \<and>
   cond (remote offline_tiers) \<noteq> Healthy \<and> \<not> local_full offline_tiers \<and>
   fst (saveCanvasData [0, 0, 0, 255] 1 1 ''data:image/jpeg;base64,BB'' sample_info 7
          ''L2-01'' ''notebook'' offline_tiers) = True \<and>
   drawings (remote (snd (saveCanvasData [0, 0, 0, 255] 1 1 ''data:image/jpeg;base64,BB''
          sample_info 7 ''L2-01'' ''notebook'' offline_tiers))) = drawings (remote offline_tiers) \<and>
   cond (remote online_tiers) = Healthy \<and> \<not> local_full online_tiers \<and>
   fst (saveCanvasData [0, 0, 0, 255] 1 1 ''data:image/jpeg;base64,BB'' sample_info 7
          ''L2-01'' ''notebook'' online_tiers) = True \<and>
   drawings (remote (snd (saveCanvasData [0, 0, 0, 255] 1 1 ''data:image/jpeg;base64,BB''
          sample_info 7 ''L2-01'' ''notebook'' online_tiers))) (''L2-01'', ''notebook'') =
     local_tier (snd (saveCanvasData [0, 0, 0, 255] 1 1 ''data:image/jpeg;base64,BB''
          sample_info 7 ''L2-01'' ''notebook'' online_tiers)) (storageKey ''L2-01'' ''notebook'')"
proof -
  have ne: "\<not> surface_empty [0, 0, 0, 255]"
    using inked_pixels by (simp add: hasContent_iff)
  have off: "cond (remote offline_tiers) \<noteq> Healthy \<and> \<not> local_full offline_tiers"
    by (simp add: offline_tiers_def)
  have on: "cond (remote online_tiers) = Healthy \<and> \<not> local_full online_tiers"
    by (simp add: online_tiers_def offline_tiers_def)
  show ?thesis
    using save_remote_first [OF ne refl refl, where date_now = 7 and cw = 1 and ch = 1
        and dataURL = "''data:image/jpeg;base64,BB''" and info = sample_info
        and lid = "''L2-01''" and vt = "''notebook''" and s = offline_tiers]
      save_remote_first [OF ne refl refl, where date_now = 7 and cw = 1 and ch = 1
        and dataURL = "''data:image/jpeg;base64,BB''" and info = sample_info
        and lid = "''L2-01''" and vt = "''notebook''" and s = online_tiers]
      ne off on
    by simp
qed

text \<open>
  Claim C4, as amended. Saving an empty surface (no pixel with a non-zero alpha byte)
  stores nothing: it sends a delete for the key to the remote tier, ignores a failure of
  that request, removes the key from the local tier and returns true. Afterwards the key
  is absent from the local tier; it is absent from the remote tier when the service
  answered the request, and the remote tier is unchanged when the request failed.
\<close>

theorem empty_save_deletes:
  assumes e: "surface_empty pixels"
  shows "fst (saveCanvasData pixels cw ch dataURL info date_now lid vt s) = True \<and>
         local_tier (snd (saveCanvasData pixels cw ch dataURL info date_now lid vt s))
           = (local_tier s)(storageKey lid vt := None) \<and>
         calls (snd (saveCanvasData pixels cw ch dataURL info date_now lid vt s))
           = calls s @ [Delete lid vt, RemoveItem (storageKey lid vt)] \<and>
         drawings (remote (snd (saveCanvasData pixels cw ch dataURL info date_now lid vt s)))
           = (if cond (remote s) = Healthy \<or> cond (remote s) = Refusing
              then (drawings (remote s))((lid, vt) := None)
              else drawings (remote s))"
proof -
  have nc: "\<not> hasContent pixels" using e by (simp add: hasContent_iff)
  show ?thesis
    by (simp add: save_empty_eq [OF nc] removeItem_def delete_remote)
qed

theorem empty_save_deletes_witness:
  "surface_empty [0, 0, 0, 0] \<and>
   drawings (remote online_tiers) (''L2-01'', ''notebook'') = Some old_record \<and>
   fst (saveCanvasData [0, 0, 0, 0] 1 1 '''' sample_info 7 ''L2-01'' ''notebook'' online_tiers)
     = True \<and>
   local_tier (snd (saveCanvasData [0, 0, 0, 0] 1 1 '''' sample_info 7 ''L2-01'' ''notebook''
     online_tiers)) (storageKey ''L2-01'' ''notebook'') = None \<and>
   drawings (remote (snd (saveCanvasData [0, 0, 0, 0] 1 1 '''' sample_info 7 ''L2-01''
     ''notebook'' online_tiers))) (''L2-01'', ''notebook'') = None"
proof -
  have e: "surface_empty [0, 0, 0, 0]"
    using clear_pixels by (simp add: hasContent_iff)
  have on: "cond (remote online_tiers) = Healthy \<and>
            drawings (remote online_tiers) (''L2-01'', ''notebook'') = Some old_record"
    by (simp add: online_tiers_def offline_tiers_def)
  show ?thesis
    using empty_save_deletes [OF e, where cw = 1 and ch = 1 and dataURL = "''''"
        and info = sample_info and date_now = 7 and lid = "''L2-01''" and vt = "''notebook''"
        and s = online_tiers] e on
    by simp
qed

text \<open>
  The claim as stated fails when the remote tier cannot be reached: the save of an empty
  surface returns true, the local record is gone, and the remote tier still holds the
  record of the key.
\<close>

theorem empty_save_deletes_counterexample:
  "fst (saveCanvasData [0, 0, 0, 0] 1 1 '''' sample_info 7 ''L2-01'' ''notebook'' offline_tiers)
     = True \<and>
   drawings (remote offline_tiers) (''L2-01'', ''notebook'') = Some old_record \<and>
   drawings (remote (snd (saveCanvasData [0, 0, 0, 0] 1 1 '''' sample_info 7 ''L2-01''
     ''notebook'' offline_tiers))) (''L2-01'', ''notebook'') = Some old_record"
proof -
  have off: "cond (remote offline_tiers) = Unreachable \<and>
             drawings (remote offline_tiers) (''L2-01'', ''notebook'') = Some old_record"
    by (simp add: offline_tiers_def)
  show ?thesis
    using off by (simp add: save_empty_eq [OF clear_pixels] removeItem_def delete_remote)
qed

subsection \<open>Loading\<close>

lemma fetch_record_served: "fst (fetch_record lid vt s) = served lid vt s"
  by (simp add: fetch_record_def served_def Let_def split: sum.splits option.splits)

lemma load_found:
  assumes f: "served lid vt s = Some r"
  shows "fst (loadCanvasData decodes cv lid vt s) =
           (version r \<in> set supportedVersions \<and> lessonId r = lid \<and> viewType r = vt \<and>
            decodes (imageData r)) \<and>
         fst (snd (loadCanvasData decodes cv lid vt s)) =
           (if version r \<in> set supportedVersions \<and> lessonId r = lid \<and> viewType r = vt \<and>
               decodes (imageData r)
            then paint_loaded r ((clear_canvas cv)\<lparr>cv_opacity := ''0''\<rparr>)
            else (clear_canvas cv)\<lparr>cv_opacity := ''0''\<rparr>)"
proof -
  obtain s1 where fr: "fetch_record lid vt s = (Some r, s1)"
    using f fetch_record_served [of lid vt s] by (cases "fetch_record lid vt s") auto
  show ?thesis by (simp add: loadCanvasData_def fr Let_def)
qed

lemma paint_loaded_surface:
  "\<exists>dims. surface (cv_ctx (paint_loaded r cv)) = [ImageInk (imageData r) dims]"
  by (auto simp: paint_loaded_def Let_def scaled_draw_def drawImage_def clear_canvas_def
        clearRect_all_def split: option.splits)

text \<open>
  Claim C5. When the record that the load reads (the server's, else the local one) has
  a version outside the supported set, or a lessonId or viewType other than the
  requested one, \<^verbatim>\<open>loadCanvasData\<close> returns false and leaves the surface blank; the
  function returns a value in every case, so no error escapes. A record of version 1.0,
  like one of version 2.0, with the requested key and an image that decodes is painted
  and the load returns true.
\<close>

theorem load_mismatch_is_no_data:
  assumes f: "served lid vt s = Some r"
  shows "(version r \<notin> set supportedVersions \<or> lessonId r \<noteq> lid \<or> viewType r \<noteq> vt \<longrightarrow>
            fst (loadCanvasData decodes cv lid vt s) = False \<and>
            surface (cv_ctx (fst (snd (loadCanvasData decodes cv lid vt s)))) = []) \<and>
         ((version r = ''1.0'' \<or> version r = ''2.0'') \<and> lessonId r = lid \<and> viewType r = vt \<and>
          decodes (imageData r) \<longrightarrow>
            fst (loadCanvasData decodes cv lid vt s) = True \<and>
            (\<exists>dims. surface (cv_ctx (fst (snd (loadCanvasData decodes cv lid vt s)))) =
                      [ImageInk (imageData r) dims]))"
proof -
  note lf = load_found [OF f, of decodes cv]
  have bad: "version r \<notin> set supportedVersions \<or> lessonId r \<noteq> lid \<or> viewType r \<noteq> vt \<Longrightarrow>
            fst (loadCanvasData decodes cv lid vt s) = False \<and>
            surface (cv_ctx (fst (snd (loadCanvasData decodes cv lid vt s)))) = []"
    using lf by (auto simp: clear_canvas_def clearRect_all_def)
  have good: "(version r = ''1.0'' \<or> version r = ''2.0'') \<and> lessonId r = lid \<and> viewType r = vt \<and>
          decodes (imageData r) \<Longrightarrow>
            fst (loadCanvasData decodes cv lid vt s) = True \<and>
            (\<exists>dims. surface (cv_ctx (fst (snd (loadCanvasData decodes cv lid vt s)))) =
                      [ImageInk (imageData r) dims])"
  proof -
    assume a: "(version r = ''1.0'' \<or> version r = ''2.0'') \<and> lessonId r = lid \<and> viewType r = vt \<and>
          decodes (imageData r)"
    then have ok: "version r \<in> set supportedVersions \<and> lessonId r = lid \<and> viewType r = vt \<and>
            decodes (imageData r)"
      by (auto simp: supportedVersions_def)
    show ?thesis using lf ok paint_loaded_surface [of r "(clear_canvas cv)\<lparr>cv_opacity := ''0''\<rparr>"]
      by simp
  qed
  show ?thesis using bad good by blast
qed

theorem load_mismatch_is_no_data_witness:
  "served ''L2-01'' ''notebook'' offline_tiers = Some old_record \<and>
   version old_record = ''1.0'' \<and> compressionInfo old_record = None \<and>
   fst (loadCanvasData (\<lambda>src. True) blank_canvas ''L2-01'' ''notebook'' offline_tiers) = True \<and>
   served ''L2-01'' ''notebook''
     (offline_tiers\<lparr>local_tier := [storageKey ''L2-01'' ''notebook'' \<mapsto> future_record]\<rparr>)
       = Some future_record \<and>
   version future_record \<notin> set supportedVersions \<and>
   fst (loadCanvasData (\<lambda>src. True) blank_canvas ''L2-01'' ''notebook''
     (offline_tiers\<lparr>local_tier := [storageKey ''L2-01'' ''notebook'' \<mapsto> future_record]\<rparr>))
       = False \<and>
   surface (cv_ctx (fst (snd (loadCanvasData (\<lambda>src. True) blank_canvas ''L2-01'' ''notebook''
     (offline_tiers\<lparr>local_tier := [storageKey ''L2-01'' ''notebook'' \<mapsto> future_record]\<rparr>)))))
       = []"
proof -
  let ?s2 = "offline_tiers\<lparr>local_tier := [storageKey ''L2-01'' ''notebook'' \<mapsto> future_record]\<rparr>"
  have s1: "served ''L2-01'' ''notebook'' offline_tiers = Some old_record"
    by (simp add: served_def offline_tiers_def api_getDrawing_def server_get_def)
  have s2: "served ''L2-01'' ''notebook'' ?s2 = Some future_record"
    by (simp add: served_def offline_tiers_def api_getDrawing_def server_get_def)
  have r1: "version old_record = ''1.0'' \<and> compressionInfo old_record = None \<and>
            lessonId old_record = ''L2-01'' \<and> viewType old_record = ''notebook''"
    by (simp add: old_record_def)
  have r2: "version future_record \<notin> set supportedVersions"
    by (simp add: future_record_def supportedVersions_def)
  show ?thesis
    using load_mismatch_is_no_data [OF s1, of "\<lambda>src. True" blank_canvas]
      load_mismatch_is_no_data [OF s2, of "\<lambda>src. True" blank_canvas] s1 s2 r1 r2
    by simp
qed

end
